theory Spec2Isabelle
  imports Complex_Main "HOL-Library.Sublist" "HOL-Library.Multiset"
begin

section \<open>The site orchestrator of the agent (\<open>agent/site.py\<close>)\<close>

text \<open>
  The class \<open>Site\<close> drives external collaborators: the bench command line reached through
  \<open>bench.docker_execute\<close>, the shell reached through \<open>Base.execute\<close>, the bench's helpers
  for database users and downloaded files, the proxy, the file system and the clock.
  None of them is part of \<open>site.py\<close>. The embedding keeps them outside as well: every call
  to a collaborator is an \<open>event\<close> appended to the \<open>trace\<close> of the world, and what the
  collaborator answers (whether it raises, what it prints, how long it takes) is read
  from an environment \<open>env\<close> that may depend on the whole history of calls so far.
  Exceptions are values: every method returns \<open>failure + result\<close> together with the
  world it leaves behind.
\<close>

subsection \<open>Values, failures, events\<close>

text \<open>What \<open>json.load\<close> produces (numbers restricted to integers).\<close>

datatype json =
    JNull
  | JBool bool
  | JInt int
  | JString string
  | JArray "json list"
  | JObject "(string \<times> json) list"

type_synonym document = "string \<rightharpoonup> json"

text \<open>
  \<open>AgentException\<close> is what the command runner raises, carrying its \<open>data\<close> payload;
  the others are the built-in exceptions the methods themselves can provoke.
\<close>

datatype failure =
    AgentException string
  | OSError string
  | ValueError
  | TypeError
  | AttributeError
  | JSONDecodeError

datatype event =
    DockerExecute string
  | Execute string
  | CreateMariadbUser string string string
  | DropMariadbUser string string string
  | DownloadFiles string string string string
  | DeleteDownloadedFiles string
  | SetupNginx
  | ReloadNginx
  | SetConfig
  | Rmtree string
  | Mkdir string
  | Sleep nat

record downloaded_files =
  files_database :: string
  files_public :: string
  files_private :: string
  files_directory :: string

record site =
  name :: string
  directory :: string
  sites_directory :: string
  database :: string
  user :: string
  password :: string
  host :: string

text \<open>
  The environment: \<open>raises h ev\<close> is the payload of the exception that call \<open>ev\<close> raises
  after history \<open>h\<close> (or \<open>None\<close> when it returns), \<open>stdout h c\<close> the text command \<open>c\<close>
  prints, \<open>micros h ev\<close> the time the call takes in microseconds (for \<open>Sleep\<close>: by how
  much the sleep overshoots). \<open>listdir\<close>, \<open>getmtime\<close>, \<open>getsize\<close> and \<open>path_exists\<close> are
  what the file system shows after history \<open>h\<close> (the names in a directory, in the order
  \<open>os.listdir\<close> yields them; the modification time and the size of a path);
  \<open>set_order\<close> is the order in which a Python \<open>set\<close> built by the given insertions is
  iterated. \<open>json_loads\<close> stands for \<open>json.loads\<close> (\<open>None\<close> when it raises
  \<open>JSONDecodeError\<close>) and \<open>py_format\<close> for \<open>str\<close> on values that are not strings.
\<close>

record env =
  raises :: "event list \<Rightarrow> event \<Rightarrow> string option"
  stdout :: "event list \<Rightarrow> string \<Rightarrow> string"
  micros :: "event list \<Rightarrow> event \<Rightarrow> nat"
  credentials :: "event list \<Rightarrow> string \<times> string"
  downloaded :: "event list \<Rightarrow> downloaded_files"
  listdir :: "event list \<Rightarrow> string \<Rightarrow> string list"
  getmtime :: "event list \<Rightarrow> string \<Rightarrow> real"
  getsize :: "event list \<Rightarrow> string \<Rightarrow> nat"
  path_exists :: "event list \<Rightarrow> string \<Rightarrow> bool"
  set_order :: "json list \<Rightarrow> json list"
  json_loads :: "string \<Rightarrow> json option"
  py_format :: "json \<Rightarrow> string"

text \<open>
  Iterating over a value, as \<open>for x in v\<close> and \<open>set(v)\<close> do: the elements of a list, the
  characters of a string, the keys of a dictionary; anything else is not iterable.
\<close>

fun iterate :: "json \<Rightarrow> failure + json list" where
  "iterate (JArray xs) = Inr xs"
| "iterate (JString x) = Inr (map (\<lambda>c. JString [c]) x)"
| "iterate (JObject kvs) = Inr (map (\<lambda>kv. JString (fst kv)) kvs)"
| "iterate v = Inl TypeError"

text \<open>
  \<open>str(v)\<close>, as an f-string applies it: a string is inserted as it is; the text of any other
  value is the environment's \<open>py_format\<close>.
\<close>

definition py_str :: "env \<Rightarrow> json \<Rightarrow> string" where
  "py_str e v = (case v of JString x \<Rightarrow> x | _ \<Rightarrow> py_format e v)"

text \<open>
  The world: the calls made so far, the wall clock in microseconds, the content of
  \<open>site_config.json\<close> and the apps installed on the site.
\<close>

record world =
  trace :: "event list"
  clock :: nat
  config :: document
  installed_apps :: "string list"

type_synonym 'a outcome = "(failure + 'a) \<times> world"

text \<open>File-system calls fail with \<open>OSError\<close>, every other collaborator with \<open>AgentException\<close>.\<close>

fun failure_of :: "event \<Rightarrow> string \<Rightarrow> failure" where
  "failure_of SetConfig p = OSError p"
| "failure_of (Rmtree d) p = OSError p"
| "failure_of (Mkdir d) p = OSError p"
| "failure_of ev p = AgentException p"

definition call :: "env \<Rightarrow> event \<Rightarrow> world \<Rightarrow> unit outcome" where
  "call e ev w =
     (let w' = w\<lparr>trace := trace w @ [ev], clock := clock w + micros e (trace w) ev\<rparr>
      in case raises e (trace w) ev of
           Some p \<Rightarrow> (Inl (failure_of ev p), w')
         | None \<Rightarrow> (Inr (), w'))"

text \<open>An environment in which no collaborator ever raises.\<close>

definition reliable :: "env \<Rightarrow> bool" where
  "reliable e \<longleftrightarrow> (\<forall>h ev. raises e h ev = None)"

subsection \<open>Configuration: \<open>update_config\<close>\<close>

text \<open>
  \<open>Base.setconfig\<close> is not in \<open>site.py\<close>; it is the single file write of the spec's
  Config Store: when the write succeeds the document is replaced, otherwise the prior
  content remains.
\<close>

definition setconfig :: "env \<Rightarrow> document \<Rightarrow> world \<Rightarrow> unit outcome" where
  "setconfig e new_config w =
     (case call e SetConfig w of
        (Inl f, w') \<Rightarrow> (Inl f, w')
      | (Inr u, w') \<Rightarrow> (Inr (), w'\<lparr>config := new_config\<rparr>))"

text \<open>\<open>for key in remove: new_config.pop(key, None)\<close>\<close>

fun pop_keys :: "string list \<Rightarrow> document \<Rightarrow> document" where
  "pop_keys [] c = c"
| "pop_keys (key # keys) c = pop_keys keys (c(key := None))"

text \<open>
  \<open>remove=None\<close> is \<open>None\<close> here; \<open>if remove:\<close> is false for \<open>None\<close> and for the
  empty list.
\<close>

definition update_config :: "env \<Rightarrow> document \<Rightarrow> string list option \<Rightarrow> world \<Rightarrow> unit outcome" where
  "update_config e val remove w =
     (let new_config = config w ++ val;
          new_config = (case remove of
                          None \<Rightarrow> new_config
                        | Some keys \<Rightarrow> if keys = [] then new_config else pop_keys keys new_config)
      in setconfig e new_config w)"

subsection \<open>Strings and paths\<close>

text \<open>\<open>s.endswith(sfx)\<close>, \<open>os.path.join(a, b)\<close> and \<open>os.path.basename(p)\<close> of \<open>posixpath\<close>.\<close>

definition endswith :: "string \<Rightarrow> string \<Rightarrow> bool" where
  "endswith s sfx = suffix sfx s"

definition path_join :: "string \<Rightarrow> string \<Rightarrow> string" where
  "path_join a b =
     (if prefix ''/'' b then b
      else if a = [] \<or> endswith a ''/'' then a @ b
      else a @ ''/'' @ b)"

definition basename :: "string \<Rightarrow> string" where
  "basename p = rev (takeWhile (\<lambda>c. c \<noteq> CHR ''/'') (rev p))"

text \<open>\<open>self.backup_directory\<close>, set in \<open>__init__\<close>.\<close>

definition backup_directory :: "site \<Rightarrow> string" where
  "backup_directory s = path_join (directory s) ''.migrate''"

subsection \<open>The command runner\<close>

text \<open>
  \<open>Bench.docker_execute\<close> and \<open>Base.execute\<close> are not in \<open>site.py\<close>: each is one call
  to the command runner, which returns the output of the command or raises.
\<close>

definition docker_execute :: "env \<Rightarrow> string \<Rightarrow> world \<Rightarrow> string outcome" where
  "docker_execute e command w =
     (case call e (DockerExecute command) w of
        (Inl f, w') \<Rightarrow> (Inl f, w')
      | (Inr u, w') \<Rightarrow> (Inr (stdout e (trace w) command), w'))"

definition execute :: "env \<Rightarrow> string \<Rightarrow> world \<Rightarrow> string outcome" where
  "execute e command w =
     (case call e (Execute command) w of
        (Inl f, w') \<Rightarrow> (Inl f, w')
      | (Inr u, w') \<Rightarrow> (Inr (stdout e (trace w) command), w'))"

text \<open>
  Modelled from the spec: the bench command line itself is outside the repository. Of
  its commands only \<open>remove-from-installed-apps '<app>'\<close> changes the part of the world
  kept here: when it succeeds, the app is no longer installed ("uninstall it").
\<close>

definition quoted :: "string \<Rightarrow> string" where
  "quoted x = [CHR 0x27] @ x @ [CHR 0x27]"

definition bench_effect :: "string \<Rightarrow> string list \<Rightarrow> string list" where
  "bench_effect command apps =
     filter (\<lambda>app. command \<noteq> ''remove-from-installed-apps '' @ quoted app) apps"

definition bench_execute :: "env \<Rightarrow> site \<Rightarrow> string \<Rightarrow> world \<Rightarrow> string outcome" where
  "bench_execute e s command w =
     (case docker_execute e (''bench --site '' @ name s @ '' '' @ command) w of
        (Inl f, w') \<Rightarrow> (Inl f, w')
      | (Inr out, w') \<Rightarrow>
          (Inr out, w'\<lparr>installed_apps := bench_effect command (installed_apps w')\<rparr>))"

subsection \<open>Backups: \<open>fetch_latest_backup\<close> and \<open>backup\<close>\<close>

text \<open>
  The loop over \<open>os.listdir(backup_directory)\<close>: the accumulator holds \<open>databases\<close>,
  \<open>publics\<close> and \<open>privates\<close>.
\<close>

fun scan :: "string \<Rightarrow> string list \<Rightarrow> string list \<times> string list \<times> string list
               \<Rightarrow> string list \<times> string list \<times> string list" where
  "scan d [] acc = acc"
| "scan d (file # files) (databases, publics, privates) =
     (let path = path_join d file in
      if endswith file ''database.sql.gz'' \<or> endswith file ''database-enc.sql.gz''
      then scan d files (databases @ [path], publics, privates)
      else if endswith file ''private-files.tar'' \<or> endswith file ''private-files-enc.tar''
      then scan d files (databases, publics, privates @ [path])
      else if endswith file ''files.tar'' \<or> endswith file ''files-enc.tar''
      then scan d files (databases, publics @ [path], privates)
      else scan d files (databases, publics, privates))"

text \<open>
  \<open>max(xs, key=k)\<close>: \<open>ValueError\<close> on the empty sequence, otherwise the first element
  whose key no later element exceeds.
\<close>

fun max_key :: "('a \<Rightarrow> real) \<Rightarrow> 'a list \<Rightarrow> failure + 'a" where
  "max_key k [] = Inl ValueError"
| "max_key k (x # xs) = Inr (foldl (\<lambda>best y. if k best < k y then y else best) x xs)"

record artifact =
  artifact_path :: string
  artifact_file :: string
  artifact_size :: nat
  artifact_url :: string

text \<open>The last loop of \<open>fetch_latest_backup\<close>, for one entry of \<open>backups\<close>.\<close>

definition describe :: "env \<Rightarrow> site \<Rightarrow> world \<Rightarrow> string \<Rightarrow> artifact" where
  "describe e s w p =
     (let file = basename p
      in \<lparr>artifact_path = p, artifact_file = file, artifact_size = getsize e (trace w) p,
          artifact_url = ''https://'' @ name s @ ''/backups/'' @ file\<rparr>)"

text \<open>The local \<open>backup_directory\<close> of \<open>fetch_latest_backup\<close>.\<close>

definition backups_directory :: "site \<Rightarrow> string" where
  "backups_directory s = path_join (path_join (directory s) ''private'') ''backups''"

text \<open>The three lists when the loop over the directory is done.\<close>

definition candidates :: "env \<Rightarrow> site \<Rightarrow> world \<Rightarrow> string list \<times> string list \<times> string list" where
  "candidates e s w =
     scan (backups_directory s) (listdir e (trace w) (backups_directory s)) ([], [], [])"

text \<open>
  The result is the dictionary \<open>backups\<close> in insertion order: \<open>database\<close>, then
  \<open>private\<close> and \<open>public\<close> when \<open>with_files\<close> is true.
\<close>

definition fetch_latest_backup :: "env \<Rightarrow> site \<Rightarrow> bool \<Rightarrow> world \<Rightarrow> (string \<times> artifact) list outcome" where
  "fetch_latest_backup e s with_files w =
     (case candidates e s w of
        (databases, publics, privates) \<Rightarrow>
          (case max_key (getmtime e (trace w)) databases of
             Inl f \<Rightarrow> (Inl f, w)
           | Inr db \<Rightarrow>
               if with_files then
                 (case max_key (getmtime e (trace w)) privates of
                    Inl f \<Rightarrow> (Inl f, w)
                  | Inr priv \<Rightarrow>
                      (case max_key (getmtime e (trace w)) publics of
                         Inl f \<Rightarrow> (Inl f, w)
                       | Inr pub \<Rightarrow>
                           (Inr [(''database'', describe e s w db),
                                 (''private'', describe e s w priv),
                                 (''public'', describe e s w pub)], w)))
               else (Inr [(''database'', describe e s w db)], w)))"


subsection \<open>Sequencing and \<open>try ... finally\<close>\<close>

text \<open>One statement after another: a failure of the first skips the second.\<close>

definition and_then :: "(world \<Rightarrow> 'a outcome) \<Rightarrow> ('a \<Rightarrow> world \<Rightarrow> 'b outcome) \<Rightarrow> world \<Rightarrow> 'b outcome" where
  "and_then m k w = (case m w of (Inl f, w') \<Rightarrow> (Inl f, w') | (Inr x, w') \<Rightarrow> k x w')"

text \<open>
  \<open>try: return body finally: final\<close>: the final block runs whatever the body did; when it
  raises, its exception replaces the outcome of the body.
\<close>

definition try_finally :: "(world \<Rightarrow> 'a outcome) \<Rightarrow> (world \<Rightarrow> unit outcome) \<Rightarrow> world \<Rightarrow> 'a outcome" where
  "try_finally body final w =
     (case body w of
        (r, w') \<Rightarrow> (case final w' of (Inl f, w'') \<Rightarrow> (Inl f, w'') | (Inr u, w'') \<Rightarrow> (r, w'')))"

subsection \<open>The bench's helpers\<close>

text \<open>
  \<open>Bench.create_mariadb_user\<close>, \<open>drop_mariadb_user\<close>, \<open>download_files\<close>,
  \<open>delete_downloaded_files\<close>, \<open>setup_nginx\<close> and \<open>Server.reload_nginx\<close> are not in
  \<open>site.py\<close>: each is one call to a collaborator.
\<close>

definition create_mariadb_user :: "env \<Rightarrow> string \<Rightarrow> string \<Rightarrow> string \<Rightarrow> world \<Rightarrow> (string \<times> string) outcome" where
  "create_mariadb_user e site_name mariadb_root_password db w =
     (case call e (CreateMariadbUser site_name mariadb_root_password db) w of
        (Inl f, w') \<Rightarrow> (Inl f, w')
      | (Inr u, w') \<Rightarrow> (Inr (credentials e (trace w)), w'))"

definition drop_mariadb_user :: "env \<Rightarrow> string \<Rightarrow> string \<Rightarrow> string \<Rightarrow> world \<Rightarrow> unit outcome" where
  "drop_mariadb_user e site_name mariadb_root_password db w =
     call e (DropMariadbUser site_name mariadb_root_password db) w"

definition download_files :: "env \<Rightarrow> string \<Rightarrow> string \<Rightarrow> string \<Rightarrow> string \<Rightarrow> world \<Rightarrow> downloaded_files outcome" where
  "download_files e site_name db pub priv w =
     (case call e (DownloadFiles site_name db pub priv) w of
        (Inl f, w') \<Rightarrow> (Inl f, w')
      | (Inr u, w') \<Rightarrow> (Inr (downloaded e (trace w)), w'))"

definition delete_downloaded_files :: "env \<Rightarrow> string \<Rightarrow> world \<Rightarrow> unit outcome" where
  "delete_downloaded_files e d w = call e (DeleteDownloadedFiles d) w"

definition setup_nginx :: "env \<Rightarrow> world \<Rightarrow> unit outcome" where
  "setup_nginx e w = call e SetupNginx w"

definition reload_nginx :: "env \<Rightarrow> world \<Rightarrow> unit outcome" where
  "reload_nginx e w = call e ReloadNginx w"

subsection \<open>Restore and reinstall\<close>

text \<open>\<open>s.replace(old, new)\<close>: every occurrence, left to right, without overlap.\<close>

function str_replace :: "string \<Rightarrow> string \<Rightarrow> string \<Rightarrow> string" where
  "str_replace [] old new = (if old = [] then new else [])"
| "str_replace (c # cs) old new =
     (if old = [] then new @ c # str_replace cs old new
      else if prefix old (c # cs) then new @ str_replace (drop (length old) (c # cs)) old new
      else c # str_replace cs old new)"
  by pat_completeness auto
termination
  by (relation "measure (\<lambda>(s, old, new). length s)") (auto simp: neq_Nil_conv)

definition restore_command :: "string \<Rightarrow> string \<Rightarrow> string \<Rightarrow> string \<Rightarrow> string \<Rightarrow> string \<Rightarrow> string" where
  "restore_command temp_user temp_password admin_password public_file_option
                   private_file_option database_file =
     ''--force restore '' @
     ''--mariadb-root-username '' @ temp_user @ '' '' @
     ''--mariadb-root-password '' @ temp_password @ '' '' @
     ''--admin-password '' @ admin_password @ '' '' @
     public_file_option @ '' '' @
     private_file_option @ '' '' @
     database_file"

definition restore :: "env \<Rightarrow> site \<Rightarrow> string \<Rightarrow> string \<Rightarrow> string \<Rightarrow> string \<Rightarrow> string \<Rightarrow> world \<Rightarrow> string outcome" where
  "restore e s mariadb_root_password admin_password database_file public_file private_file w =
     (let database_file = str_replace database_file (sites_directory s) ''/home/frappe/frappe-bench/sites'';
          public_file = str_replace public_file (sites_directory s) ''/home/frappe/frappe-bench/sites'';
          private_file = str_replace private_file (sites_directory s) ''/home/frappe/frappe-bench/sites'';
          public_file_option =
            (if public_file \<noteq> [] then ''--with-public-files '' @ public_file else '''');
          private_file_option =
            (if private_file \<noteq> [] then ''--with-private-files '' @ private_file @ '' '' else '''')
      in case create_mariadb_user e (name s) mariadb_root_password (database s) w of
           (Inl f, w') \<Rightarrow> (Inl f, w')
         | (Inr (temp_user, temp_password), w') \<Rightarrow>
             try_finally
               (bench_execute e s
                  (restore_command temp_user temp_password admin_password public_file_option
                     private_file_option database_file))
               (drop_mariadb_user e (name s) mariadb_root_password (database s)) w')"

definition reinstall_command :: "string \<Rightarrow> string \<Rightarrow> string \<Rightarrow> string" where
  "reinstall_command temp_user temp_password admin_password =
     ''reinstall --yes '' @
     ''--mariadb-root-username '' @ temp_user @ '' '' @
     ''--mariadb-root-password '' @ temp_password @ '' '' @
     ''--admin-password '' @ admin_password"

definition reinstall :: "env \<Rightarrow> site \<Rightarrow> string \<Rightarrow> string \<Rightarrow> world \<Rightarrow> string outcome" where
  "reinstall e s mariadb_root_password admin_password w =
     (case create_mariadb_user e (name s) mariadb_root_password (database s) w of
        (Inl f, w') \<Rightarrow> (Inl f, w')
      | (Inr (temp_user, temp_password), w') \<Rightarrow>
          try_finally
            (bench_execute e s (reinstall_command temp_user temp_password admin_password))
            (drop_mariadb_user e (name s) mariadb_root_password (database s)) w')"

subsection \<open>Reconciling the installed apps\<close>

text \<open>
  The loop of \<open>uninstall_unavailable_apps\<close> over the parsed list. \<open>apps_to_keep\<close> is a list
  of strings, so \<open>app not in apps_to_keep\<close> holds unless \<open>app\<close> is one of these strings.
\<close>

fun uninstall_loop :: "env \<Rightarrow> site \<Rightarrow> string list \<Rightarrow> json list \<Rightarrow> world \<Rightarrow> unit outcome" where
  "uninstall_loop e s apps_to_keep [] w = (Inr (), w)"
| "uninstall_loop e s apps_to_keep (app # apps) w =
     (if app \<notin> set (map JString apps_to_keep) then
        (case bench_execute e s (''remove-from-installed-apps '' @ quoted (py_str e app)) w of
           (Inl f, w') \<Rightarrow> (Inl f, w')
         | (Inr out, w') \<Rightarrow>
             (case bench_execute e s ''clear-cache'' w' of
                (Inl f, w'') \<Rightarrow> (Inl f, w'')
              | (Inr out', w'') \<Rightarrow> uninstall_loop e s apps_to_keep apps w''))
      else uninstall_loop e s apps_to_keep apps w)"

text \<open>
  \<open>installed_apps = json.loads(self.bench_execute(...)["output"])\<close>: the output is parsed,
  which may raise, and the \<open>for\<close> loop iterates over whatever value the parse gave.
\<close>

definition uninstall_unavailable_apps :: "env \<Rightarrow> site \<Rightarrow> string list \<Rightarrow> world \<Rightarrow> unit outcome" where
  "uninstall_unavailable_apps e s apps_to_keep w =
     (case bench_execute e s ''execute frappe.get_installed_apps'' w of
        (Inl f, w') \<Rightarrow> (Inl f, w')
      | (Inr out, w') \<Rightarrow>
          (case json_loads e out of
             None \<Rightarrow> (Inl JSONDecodeError, w')
           | Some parsed \<Rightarrow>
               (case iterate parsed of
                  Inl f \<Rightarrow> (Inl f, w')
                | Inr installed \<Rightarrow> uninstall_loop e s apps_to_keep installed w')))"

subsection \<open>The restore job\<close>

definition migrate :: "env \<Rightarrow> site \<Rightarrow> bool \<Rightarrow> world \<Rightarrow> string outcome" where
  "migrate e s skip_failing_patches w =
     (if skip_failing_patches then bench_execute e s ''migrate --skip-failing'' w
      else bench_execute e s ''migrate'' w)"

definition set_admin_password :: "env \<Rightarrow> site \<Rightarrow> string \<Rightarrow> world \<Rightarrow> string outcome" where
  "set_admin_password e s pw w = bench_execute e s (''set-admin-password '' @ pw) w"

definition enable_scheduler :: "env \<Rightarrow> site \<Rightarrow> world \<Rightarrow> string outcome" where
  "enable_scheduler e s w = bench_execute e s ''scheduler enable'' w"

text \<open>What follows the \<open>try ... finally\<close> of \<open>restore_job\<close>.\<close>

definition after_restore :: "env \<Rightarrow> site \<Rightarrow> string list \<Rightarrow> string \<Rightarrow> bool \<Rightarrow> world \<Rightarrow> string outcome" where
  "after_restore e s apps admin_password skip_failing_patches =
     and_then (uninstall_unavailable_apps e s apps) (\<lambda>u.
     and_then (migrate e s skip_failing_patches) (\<lambda>out.
     and_then (set_admin_password e s admin_password) (\<lambda>out.
     and_then (enable_scheduler e s) (\<lambda>out.
     and_then (setup_nginx e) (\<lambda>u.
     and_then (reload_nginx e) (\<lambda>u.
     bench_execute e s ''list-apps''))))))"

definition restore_job :: "env \<Rightarrow> site \<Rightarrow> string list \<Rightarrow> string \<Rightarrow> string \<Rightarrow> string \<Rightarrow> string \<Rightarrow> string \<Rightarrow> bool
                            \<Rightarrow> world \<Rightarrow> string outcome" where
  "restore_job e s apps mariadb_root_password admin_password db pub priv skip_failing_patches w =
     (case download_files e (name s) db pub priv w of
        (Inl f, w') \<Rightarrow> (Inl f, w')
      | (Inr files, w') \<Rightarrow>
          and_then
            (try_finally
               (restore e s mariadb_root_password admin_password
                  (files_database files) (files_public files) (files_private files))
               (delete_downloaded_files e (files_directory files)))
            (\<lambda>out. after_restore e s apps admin_password skip_failing_patches) w')"

subsection \<open>Readiness polling: \<open>wait_till_ready\<close>\<close>








subsection \<open>Table-wise backup\<close>

definition clear_backup_directory :: "env \<Rightarrow> site \<Rightarrow> world \<Rightarrow> unit outcome" where
  "clear_backup_directory e s w =
     and_then
       (\<lambda>w. if path_exists e (trace w) (backup_directory s)
             then call e (Rmtree (backup_directory s)) w
             else (Inr (), w))
       (\<lambda>u. call e (Mkdir (backup_directory s))) w"

text \<open>\<open>s.split(sep)\<close> for a separator of one character.\<close>

fun split_on :: "char \<Rightarrow> string \<Rightarrow> string list" where
  "split_on sep [] = [[]]"
| "split_on sep (c # cs) =
     (if c = sep then [] # split_on sep cs
      else (case split_on sep cs of [] \<Rightarrow> [[c]] | x # xs \<Rightarrow> (c # x) # xs))"

text \<open>The property \<open>tables\<close>: the live table-list query.\<close>

definition tables_command :: "site \<Rightarrow> string" where
  "tables_command s =
     ''mysql --disable-column-names -B -e '' @ quoted ''SHOW TABLES'' @ '' '' @
     ''-h '' @ host s @ '' -u '' @ user s @ '' -p'' @ password s @ '' '' @ database s"

definition tables :: "env \<Rightarrow> site \<Rightarrow> world \<Rightarrow> string list outcome" where
  "tables e s w =
     (case execute e (tables_command s) w of
        (Inl f, w') \<Rightarrow> (Inl f, w')
      | (Inr out, w') \<Rightarrow> (Inr (split_on (CHR 0x0A) out), w'))"

definition dump_command :: "site \<Rightarrow> string \<Rightarrow> string" where
  "dump_command s table =
     (let backup_file = path_join (backup_directory s) (table @ ''.sql'')
      in ''mysqldump --single-transaction --quick --lock-tables=false '' @
         ''-h '' @ host s @ '' -u '' @ user s @ '' -p'' @ password s @ '' '' @
         database s @ '' '' @ quoted table @ '' '' @
         ''> '' @ quoted backup_file)"

text \<open>The loop of \<open>tablewise_backup\<close>; \<open>data\<close> is \<open>data["tables"]\<close>.\<close>

fun dump_loop :: "env \<Rightarrow> site \<Rightarrow> string list \<Rightarrow> (string \<rightharpoonup> string) \<Rightarrow> world
                    \<Rightarrow> (string \<rightharpoonup> string) outcome" where
  "dump_loop e s [] data w = (Inr data, w)"
| "dump_loop e s (table # rest) data w =
     (case execute e (dump_command s table) w of
        (Inl f, w') \<Rightarrow> (Inl f, w')
      | (Inr out, w') \<Rightarrow> dump_loop e s rest (data(table \<mapsto> out)) w')"

definition tablewise_backup :: "env \<Rightarrow> site \<Rightarrow> world \<Rightarrow> (string \<rightharpoonup> string) outcome" where
  "tablewise_backup e s w =
     (case tables e s w of
        (Inl f, w') \<Rightarrow> (Inl f, w')
      | (Inr ts, w') \<Rightarrow> dump_loop e s ts Map.empty w')"

subsection \<open>Domains\<close>

text \<open>
  A Python \<open>set\<close> is kept as the list of its elements in the order they were inserted.
  Two elements are the same element when they hash and compare equal: \<open>True\<close> is \<open>1\<close>.
  Lists and dictionaries cannot be hashed.
\<close>

datatype hashed = HNone | HNum int | HStr string

fun hash_key :: "json \<Rightarrow> hashed option" where
  "hash_key JNull = Some HNone"
| "hash_key (JBool b) = Some (HNum (if b then 1 else 0))"
| "hash_key (JInt i) = Some (HNum i)"
| "hash_key (JString x) = Some (HStr x)"
| "hash_key (JArray xs) = None"
| "hash_key (JObject kvs) = None"

definition set_add :: "json \<Rightarrow> json list \<Rightarrow> failure + json list" where
  "set_add x elems =
     (case hash_key x of
        None \<Rightarrow> Inl TypeError
      | Some k \<Rightarrow> if Some k \<in> set (map hash_key elems) then Inr elems else Inr (elems @ [x]))"

definition set_discard :: "json \<Rightarrow> json list \<Rightarrow> failure + json list" where
  "set_discard x elems =
     (case hash_key x of
        None \<Rightarrow> Inl TypeError
      | Some k \<Rightarrow> Inr (filter (\<lambda>y. hash_key y \<noteq> Some k) elems))"

text \<open>\<open>set(v)\<close>: iterate over \<open>v\<close> and add each element.\<close>

fun add_all :: "json list \<Rightarrow> json list \<Rightarrow> failure + json list" where
  "add_all [] elems = Inr elems"
| "add_all (x # xs) elems =
     (case set_add x elems of Inl f \<Rightarrow> Inl f | Inr elems' \<Rightarrow> add_all xs elems')"

definition py_set :: "json \<Rightarrow> failure + json list" where
  "py_set v = (case iterate v of Inl f \<Rightarrow> Inl f | Inr xs \<Rightarrow> add_all xs [])"

text \<open>\<open>self.config.get("domains", [])\<close>\<close>

definition stored_domains :: "world \<Rightarrow> json" where
  "stored_domains w = (case config w ''domains'' of None \<Rightarrow> JArray [] | Some v \<Rightarrow> v)"

text \<open>What both domain jobs do once \<open>domains\<close> is computed.\<close>

definition write_domains :: "env \<Rightarrow> json list \<Rightarrow> world \<Rightarrow> unit outcome" where
  "write_domains e domains =
     and_then (update_config e [''domains'' \<mapsto> JArray (set_order e domains)] None) (\<lambda>u.
     and_then (setup_nginx e) (\<lambda>u.
     reload_nginx e))"

definition add_domain :: "env \<Rightarrow> json \<Rightarrow> world \<Rightarrow> unit outcome" where
  "add_domain e domain w =
     (case py_set (stored_domains w) of
        Inl f \<Rightarrow> (Inl f, w)
      | Inr domains \<Rightarrow>
          (case set_add domain domains of
             Inl f \<Rightarrow> (Inl f, w)
           | Inr domains \<Rightarrow> write_domains e domains w))"

definition remove_domain :: "env \<Rightarrow> json \<Rightarrow> world \<Rightarrow> unit outcome" where
  "remove_domain e domain w =
     (case py_set (stored_domains w) of
        Inl f \<Rightarrow> (Inl f, w)
      | Inr domains \<Rightarrow>
          (case set_discard domain domains of
             Inl f \<Rightarrow> (Inl f, w)
           | Inr domains \<Rightarrow> write_domains e domains w))"

subsection \<open>Notions used to state the properties\<close>

text \<open>The calls made between two worlds.\<close>

definition new_events :: "world \<Rightarrow> world \<Rightarrow> event list" where
  "new_events w w' = drop (length (trace w)) (trace w')"

text \<open>A computation all of whose calls satisfy \<open>P\<close>.\<close>

definition emits_only :: "(event \<Rightarrow> bool) \<Rightarrow> (world \<Rightarrow> 'a outcome) \<Rightarrow> bool" where
  "emits_only P m \<longleftrightarrow>
     (\<forall>w. \<exists>evs. trace (snd (m w)) = trace w @ evs \<and> list_all P evs)"

text \<open>The suffixes that \<open>fetch_latest_backup\<close> looks for, role by role.\<close>

definition has_database_suffix :: "string \<Rightarrow> bool" where
  "has_database_suffix file \<longleftrightarrow>
     suffix ''database.sql.gz'' file \<or> suffix ''database-enc.sql.gz'' file"

definition has_private_suffix :: "string \<Rightarrow> bool" where
  "has_private_suffix file \<longleftrightarrow>
     suffix ''private-files.tar'' file \<or> suffix ''private-files-enc.tar'' file"

definition has_files_suffix :: "string \<Rightarrow> bool" where
  "has_files_suffix file \<longleftrightarrow> suffix ''files.tar'' file \<or> suffix ''files-enc.tar'' file"


text \<open>
  The command that \<open>restore\<close> hands to \<open>bench_execute\<close> once the credential \<open>cred\<close> exists.
\<close>

definition restore_bench_command :: "site \<Rightarrow> string \<Rightarrow> string \<Rightarrow> string \<Rightarrow> string \<Rightarrow> string \<times> string \<Rightarrow> string" where
  "restore_bench_command s admin db_file pub_file priv_file cred =
     restore_command (fst cred) (snd cred) admin
       (if str_replace pub_file (sites_directory s) ''/home/frappe/frappe-bench/sites'' \<noteq> []
        then ''--with-public-files '' @
             str_replace pub_file (sites_directory s) ''/home/frappe/frappe-bench/sites''
        else [])
       (if str_replace priv_file (sites_directory s) ''/home/frappe/frappe-bench/sites'' \<noteq> []
        then ''--with-private-files '' @
             str_replace priv_file (sites_directory s) ''/home/frappe/frappe-bench/sites'' @ '' ''
        else [])
       (str_replace db_file (sites_directory s) ''/home/frappe/frappe-bench/sites'')"

text \<open>The query for the installed apps, as the command runner sees it.\<close>

definition installed_query :: "site \<Rightarrow> string" where
  "installed_query s = ''bench --site '' @ name s @ '' execute frappe.get_installed_apps''"

text \<open>
  The commands that reconcile \<open>apps\<close> with \<open>apps_to_keep\<close>: a removal and a cache clear for
  each app that is not kept.
\<close>

definition removal_commands :: "site \<Rightarrow> string list \<Rightarrow> string list \<Rightarrow> event list" where
  "removal_commands s apps_to_keep apps =
     concat (map (\<lambda>app. [DockerExecute (''bench --site '' @ name s @ '' remove-from-installed-apps '' @ quoted app),
                          DockerExecute (''bench --site '' @ name s @ '' clear-cache'')])
              (filter (\<lambda>app. app \<notin> set apps_to_keep) apps))"






subsection \<open>Concrete inputs\<close>

text \<open>
  A site, an environment in which every call returns at once with empty output, and an
  empty world; the other environments and worlds differ from these where stated.
\<close>

definition site0 :: site where
  "site0 = \<lparr>name = ''s.com'', directory = ''/benches/b/sites/s.com'',
            sites_directory = ''/benches/b/sites'', database = ''_db'', user = ''_db'',
            password = ''pw'', host = ''localhost''\<rparr>"

definition env0 :: env where
  "env0 = \<lparr>raises = (\<lambda>h ev. None), stdout = (\<lambda>h c. []), micros = (\<lambda>h ev. 0),
           credentials = (\<lambda>h. (''tmp_user'', ''tmp_pass'')),
           downloaded = (\<lambda>h. \<lparr>files_database = ''/benches/b/sites/s.com/d/db.sql.gz'',
                               files_public = [], files_private = [],
                               files_directory = ''/benches/b/sites/s.com/d''\<rparr>),
           listdir = (\<lambda>h d. []), getmtime = (\<lambda>h p. 0), getsize = (\<lambda>h p. 0),
           path_exists = (\<lambda>h p. False), set_order = (\<lambda>xs. xs),
           json_loads = (\<lambda>t. None), py_format = (\<lambda>v. [])\<rparr>"

definition world0 :: world where
  "world0 = \<lparr>trace = [], clock = 0, config = Map.empty, installed_apps = []\<rparr>"

text \<open>A configuration with two keys.\<close>

definition world1 :: world where
  "world1 = world0\<lparr>config := [''b'' \<mapsto> JInt 2, ''c'' \<mapsto> JInt 3]\<rparr>"

text \<open>
  A backup directory with two database dumps (\<open>b\<close> newer than \<open>a\<close>), two private archives
  and one public archive; and one with a database dump and a public archive only.
\<close>

definition env_backups :: env where
  "env_backups = env0\<lparr>
     listdir := (\<lambda>h d. [''a.database.sql.gz'', ''b.database.sql.gz'', ''x-private-files.tar'',
                          ''x-files.tar'', ''y-private-files-enc.tar'', ''notes.txt'']),
     getmtime := (\<lambda>h p. if p = ''/benches/b/sites/s.com/private/backups/b.database.sql.gz'' then 2
                          else if p = ''/benches/b/sites/s.com/private/backups/y-private-files-enc.tar'' then 5
                          else 1),
     getsize := (\<lambda>h p. 7)\<rparr>"

definition env_database_only :: env where
  "env_database_only = env0\<lparr>listdir := (\<lambda>h d. [''a.database.sql.gz'', ''x-files.tar''])\<rparr>"

text \<open>Every command run through \<open>docker_execute\<close> fails.\<close>

definition env_failing :: env where
  "env_failing = env0\<lparr>raises := (\<lambda>h ev. case ev of DockerExecute c \<Rightarrow> Some ''exit 1'' | _ \<Rightarrow> None)\<rparr>"

text \<open>
  Three apps are installed, and every command prints the JSON list of these three apps,
  which is the one text that \<open>json_loads\<close> parses.
\<close>

definition world_apps :: world where
  "world_apps = world0\<lparr>installed_apps := [''frappe'', ''crm'', ''hr'']\<rparr>"

definition apps_text :: string where
  "apps_text = ''['' @ [CHR 0x22] @ ''frappe'' @ [CHR 0x22] @ '', '' @
               [CHR 0x22] @ ''crm'' @ [CHR 0x22] @ '', '' @
               [CHR 0x22] @ ''hr'' @ [CHR 0x22] @ '']''"

definition env_apps :: env where
  "env_apps = env0\<lparr>
     stdout := (\<lambda>h c. apps_text),
     json_loads := (\<lambda>t. if t = apps_text
                         then Some (JArray [JString ''frappe'', JString ''crm'', JString ''hr''])
                         else None)\<rparr>"

text \<open>The database has two tables and the staging directory exists.\<close>

definition env_tables :: env where
  "env_tables = env0\<lparr>
     stdout := (\<lambda>h c. if prefix ''mysql '' c then ''tabUser'' @ [CHR 0x0A] @ ''tabRole'' else ''done''),
     path_exists := (\<lambda>h p. True)\<rparr>"



text \<open>Sets are iterated in the reverse order of insertion; one domain is stored.\<close>

definition env_rev :: env where
  "env_rev = env0\<lparr>set_order := rev\<rparr>"

definition world_domains :: world where
  "world_domains = world0\<lparr>config := [''domains'' \<mapsto> JArray [JString ''a.com'']]\<rparr>"

section \<open>Facts about the model\<close>

subsection \<open>Calls\<close>

lemma call_trace: "trace (snd (call e ev w)) = trace w @ [ev]"
  by (simp add: call_def Let_def split: option.split)

lemma call_reliable: "reliable e \<Longrightarrow> fst (call e ev w) = Inr ()"
  by (simp add: call_def Let_def reliable_def)

lemma reliable_env0: "reliable env0"
  by (simp add: reliable_def env0_def)

lemma site0_fields:
  "name site0 = ''s.com''" "directory site0 = ''/benches/b/sites/s.com''"
  "sites_directory site0 = ''/benches/b/sites''" "database site0 = ''_db''"
  "user site0 = ''_db''" "password site0 = ''pw''" "host site0 = ''localhost''"
  by (simp_all add: site0_def)

lemma world0_fields:
  "trace world0 = []" "clock world0 = 0" "config world0 = Map.empty" "installed_apps world0 = []"
  by (simp_all add: world0_def)

subsection \<open>Configuration\<close>

lemma pop_keys_apply: "pop_keys keys c k = (if k \<in> set keys then None else c k)"
  by (induction keys arbitrary: c) auto

lemma update_config_result:
  "fst (update_config e val remove w) = Inr () \<Longrightarrow>
   config (snd (update_config e val remove w)) k =
     (if k \<in> set (case remove of None \<Rightarrow> [] | Some keys \<Rightarrow> keys) then None
      else (config w ++ val) k)"
  by (auto simp: update_config_def setconfig_def Let_def pop_keys_apply
      split: prod.splits sum.splits option.splits)

lemma update_config_reliable: "reliable e \<Longrightarrow> fst (update_config e val remove w) = Inr ()"
  using call_reliable [of e SetConfig w]
  by (auto simp: update_config_def setconfig_def Let_def split: prod.splits sum.splits)

lemma update_config_env0:
  "update_config env0 val remove w =
     (Inr (), w\<lparr>trace := trace w @ [SetConfig],
               config := (case remove of None \<Rightarrow> config w ++ val
                  | Some keys \<Rightarrow> if keys = [] then config w ++ val
                                else pop_keys keys (config w ++ val))\<rparr>)"
  by (simp add: update_config_def setconfig_def call_def env0_def Let_def)

text \<open>
  C2, as amended. When the write succeeds (and it does whenever no collaborator fails),
  the new document maps every key of the additions that is not listed for removal to its
  new value, has no key listed for removal, and maps every other key to what it was
  mapped to before (absent keys stay absent). A key that is both added and listed for
  removal is absent: the removals run after the merge.
\<close>

theorem update_config_document:
  "(reliable e \<longrightarrow> fst (update_config e val remove w) = Inr ()) \<and>
   (fst (update_config e val remove w) = Inr () \<longrightarrow>
      (\<forall>k v. val k = Some v \<and> k \<notin> set (case remove of None \<Rightarrow> [] | Some keys \<Rightarrow> keys)
             \<longrightarrow> config (snd (update_config e val remove w)) k = Some v) \<and>
      (\<forall>k \<in> set (case remove of None \<Rightarrow> [] | Some keys \<Rightarrow> keys).
             config (snd (update_config e val remove w)) k = None) \<and>
      (\<forall>k. k \<notin> dom val \<and> k \<notin> set (case remove of None \<Rightarrow> [] | Some keys \<Rightarrow> keys)
             \<longrightarrow> config (snd (update_config e val remove w)) k = config w k))"
proof (intro conjI impI)
  assume "reliable e"
  then show "fst (update_config e val remove w) = Inr ()"
    by (rule update_config_reliable)
next
  assume ok: "fst (update_config e val remove w) = Inr ()"
  show "\<forall>k v. val k = Some v \<and> k \<notin> set (case remove of None \<Rightarrow> [] | Some keys \<Rightarrow> keys)
             \<longrightarrow> config (snd (update_config e val remove w)) k = Some v"
    by (simp add: update_config_result [OF ok])
next
  assume ok: "fst (update_config e val remove w) = Inr ()"
  show "\<forall>k \<in> set (case remove of None \<Rightarrow> [] | Some keys \<Rightarrow> keys).
             config (snd (update_config e val remove w)) k = None"
    by (simp add: update_config_result [OF ok])
next
  assume ok: "fst (update_config e val remove w) = Inr ()"
  show "\<forall>k. k \<notin> dom val \<and> k \<notin> set (case remove of None \<Rightarrow> [] | Some keys \<Rightarrow> keys)
             \<longrightarrow> config (snd (update_config e val remove w)) k = config w k"
    by (auto simp: update_config_result [OF ok] map_add_def split: option.splits)
qed

text \<open>
  Witness for C2: adding \<open>a\<close> and removing \<open>b\<close> in a document that holds \<open>b\<close> and
  \<open>c\<close>.
\<close>

theorem update_config_document_witness:
  "reliable env0 \<and>
   fst (update_config env0 [''a'' \<mapsto> JInt 1] (Some [''b'']) world1) = Inr () \<and>
   config (snd (update_config env0 [''a'' \<mapsto> JInt 1] (Some [''b'']) world1)) ''a'' = Some (JInt 1) \<and>
   config (snd (update_config env0 [''a'' \<mapsto> JInt 1] (Some [''b'']) world1)) ''b'' = None \<and>
   config (snd (update_config env0 [''a'' \<mapsto> JInt 1] (Some [''b'']) world1)) ''c'' = Some (JInt 3)"
  using update_config_document [of env0 "[''a'' \<mapsto> JInt 1]" "Some [''b'']" world1] reliable_env0
  by (simp add: world1_def world0_def)

text \<open>
  Counterexample to C2 as stated: the additions hold \<open>k\<close> with the value 1, the removals
  list \<open>k\<close> as well; the call succeeds and the new document does not map \<open>k\<close> to 1.
\<close>

theorem update_config_added_and_removed_counterexample:
  "fst (update_config env0 [''k'' \<mapsto> JInt 1] (Some [''k'']) world0) = Inr () \<and>
   [''k'' \<mapsto> JInt 1] ''k'' = Some (JInt 1) \<and>
   config (snd (update_config env0 [''k'' \<mapsto> JInt 1] (Some [''k'']) world0)) ''k'' \<noteq> Some (JInt 1)"
  by (simp add: update_config_env0)

text \<open>
  C10. A key that is in the additions and in the removals of one call of \<open>update_config\<close>
  is absent from the document the call writes; and the call does write whenever no
  collaborator fails.
\<close>

theorem update_config_removal_wins:
  "(reliable e \<longrightarrow> fst (update_config e val (Some remove) w) = Inr ()) \<and>
   (fst (update_config e val (Some remove) w) = Inr () \<longrightarrow>
      (\<forall>k. k \<in> dom val \<and> k \<in> set remove \<longrightarrow>
           config (snd (update_config e val (Some remove) w)) k = None))"
  using update_config_reliable [of e val "Some remove" w]
        update_config_result [of e val "Some remove" w]
  by simp

text \<open>Witness for C10: \<open>k\<close> is added and removed in the same call.\<close>

theorem update_config_removal_wins_witness:
  "reliable env0 \<and>
   fst (update_config env0 [''k'' \<mapsto> JInt 1] (Some [''k'']) world1) = Inr () \<and>
   ''k'' \<in> dom [''k'' \<mapsto> JInt 1] \<and> ''k'' \<in> set [''k''] \<and>
   config (snd (update_config env0 [''k'' \<mapsto> JInt 1] (Some [''k'']) world1)) ''k'' = None"
  using update_config_removal_wins [of env0 "[''k'' \<mapsto> JInt 1]" "[''k'']" world1] reliable_env0
  by simp

subsection \<open>Backups: the classification of files\<close>

lemma suffix_last: "suffix xs ys \<Longrightarrow> xs \<noteq> [] \<Longrightarrow> last ys = last xs"
  by (auto simp: suffix_def)

lemma private_not_database: "has_private_suffix file \<Longrightarrow> \<not> has_database_suffix file"
  by (auto simp: has_private_suffix_def has_database_suffix_def dest!: suffix_last)

lemma files_not_database: "has_files_suffix file \<Longrightarrow> \<not> has_database_suffix file"
  by (auto simp: has_files_suffix_def has_database_suffix_def dest!: suffix_last)

lemma private_files: "has_private_suffix file \<Longrightarrow> has_files_suffix file"
  by (auto simp: has_private_suffix_def has_files_suffix_def suffix_def)

lemma scan_filters:
  "scan d files (databases, publics, privates) =
     (databases @ map (path_join d) (filter has_database_suffix files),
      publics @ map (path_join d) (filter (\<lambda>file. has_files_suffix file \<and> \<not> has_private_suffix file) files),
      privates @ map (path_join d) (filter has_private_suffix files))"
proof (induction files arbitrary: databases publics privates)
  case Nil
  show ?case by simp
next
  case (Cons f fs)
  consider (db) "has_database_suffix f"
    | (priv) "\<not> has_database_suffix f" "has_private_suffix f"
    | (pub) "\<not> has_database_suffix f" "\<not> has_private_suffix f" "has_files_suffix f"
    | (none) "\<not> has_database_suffix f" "\<not> has_private_suffix f" "\<not> has_files_suffix f"
    by blast
  then show ?case
  proof cases
    case db
    then have "\<not> has_files_suffix f" "\<not> has_private_suffix f"
      using files_not_database private_not_database by blast+
    with db show ?thesis
      using Cons.IH
      by (simp add: Let_def endswith_def has_database_suffix_def [symmetric])
  next
    case priv
    then show ?thesis
      using Cons.IH
      by (simp add: Let_def endswith_def has_database_suffix_def [symmetric]
          has_private_suffix_def [symmetric])
  next
    case pub
    then show ?thesis
      using Cons.IH
      by (simp add: Let_def endswith_def has_database_suffix_def [symmetric]
          has_private_suffix_def [symmetric] has_files_suffix_def [symmetric])
  next
    case none
    then show ?thesis
      using Cons.IH
      by (simp add: Let_def endswith_def has_database_suffix_def [symmetric]
          has_private_suffix_def [symmetric] has_files_suffix_def [symmetric])
  qed
qed

lemma candidates_filters:
  "candidates e s w =
     (map (path_join (backups_directory s))
        (filter has_database_suffix (listdir e (trace w) (backups_directory s))),
      map (path_join (backups_directory s))
        (filter (\<lambda>file. has_files_suffix file \<and> \<not> has_private_suffix file)
           (listdir e (trace w) (backups_directory s))),
      map (path_join (backups_directory s))
        (filter has_private_suffix (listdir e (trace w) (backups_directory s))))"
  by (simp add: candidates_def scan_filters)

text \<open>
  C9. Every name that ends with \<open>private-files.tar\<close> or \<open>private-files-enc.tar\<close> also ends
  with \<open>files.tar\<close> or \<open>files-enc.tar\<close>; all the same, the private candidates are exactly
  the paths of the listed names with a private suffix, and the public candidates are the
  paths of the listed names with a files suffix and no private suffix: the private test
  comes first.
\<close>

theorem private_before_public:
  "(\<forall>file. has_private_suffix file \<longrightarrow> has_files_suffix file) \<and>
   snd (snd (candidates e s w)) =
     map (path_join (backups_directory s))
       (filter has_private_suffix (listdir e (trace w) (backups_directory s))) \<and>
   fst (snd (candidates e s w)) =
     map (path_join (backups_directory s))
       (filter (\<lambda>file. has_files_suffix file \<and> \<not> has_private_suffix file)
          (listdir e (trace w) (backups_directory s)))"
  by (simp add: candidates_filters private_files)

lemma backups_directory_site0:
  "backups_directory site0 = ''/benches/b/sites/s.com/private/backups''"
  by (simp add: backups_directory_def site0_def path_join_def endswith_def suffix_to_prefix)

lemma candidates_env_backups:
  "candidates env_backups site0 world0 =
     ([''/benches/b/sites/s.com/private/backups/a.database.sql.gz'',
       ''/benches/b/sites/s.com/private/backups/b.database.sql.gz''],
      [''/benches/b/sites/s.com/private/backups/x-files.tar''],
      [''/benches/b/sites/s.com/private/backups/x-private-files.tar'',
       ''/benches/b/sites/s.com/private/backups/y-private-files-enc.tar''])"
  by (simp add: candidates_def backups_directory_site0 env_backups_def env0_def world0_def
      Let_def endswith_def suffix_to_prefix path_join_def)

text \<open>
  Witness for C9: a directory with two private archives and one public archive.
\<close>

theorem private_before_public_witness:
  "has_private_suffix ''x-private-files.tar'' \<and> has_files_suffix ''x-private-files.tar'' \<and>
   has_private_suffix ''y-private-files-enc.tar'' \<and> has_files_suffix ''y-private-files-enc.tar'' \<and>
   snd (snd (candidates env_backups site0 world0)) =
     [''/benches/b/sites/s.com/private/backups/x-private-files.tar'',
      ''/benches/b/sites/s.com/private/backups/y-private-files-enc.tar''] \<and>
   fst (snd (candidates env_backups site0 world0)) =
     [''/benches/b/sites/s.com/private/backups/x-files.tar'']"
  using private_before_public [of env_backups site0 world0]
  by (simp add: candidates_env_backups has_private_suffix_def has_files_suffix_def suffix_to_prefix)

subsection \<open>Backups: the latest candidate\<close>



lemma max_key_Inl: "max_key k xs = Inl f \<Longrightarrow> xs = [] \<and> f = ValueError"
  by (cases xs) auto

text \<open>
  C4. When the scan leaves no database candidate, or files are requested and it leaves no
  private or no public candidate, \<open>fetch_latest_backup\<close> fails: \<open>max\<close> raises \<open>ValueError\<close> on
  the empty list of candidates, which is the failure the spec calls \<open>NoBackupFound\<close>.
\<close>

theorem fetch_latest_backup_no_candidates:
  assumes "candidates e s w = (databases, publics, privates)"
    and "databases = [] \<or> (with_files \<and> (privates = [] \<or> publics = []))"
  shows "fetch_latest_backup e s with_files w = (Inl ValueError, w)"
  using assms
  by (auto simp: fetch_latest_backup_def split: sum.splits dest: max_key_Inl)

lemma candidates_env0: "candidates env0 site0 world0 = ([], [], [])"
  by (simp add: candidates_def env0_def)

lemma candidates_env_database_only:
  "candidates env_database_only site0 world0 =
     ([''/benches/b/sites/s.com/private/backups/a.database.sql.gz''],
      [''/benches/b/sites/s.com/private/backups/x-files.tar''], [])"
  by (simp add: candidates_def backups_directory_site0 env_database_only_def env0_def world0_def
      Let_def endswith_def suffix_to_prefix path_join_def)

text \<open>
  Witness for C4: an empty directory, and a directory without a private archive when files
  are requested.
\<close>

theorem fetch_latest_backup_no_candidates_witness:
  "candidates env0 site0 world0 = ([], [], []) \<and>
   fetch_latest_backup env0 site0 False world0 = (Inl ValueError, world0) \<and>
   candidates env_database_only site0 world0 =
     ([''/benches/b/sites/s.com/private/backups/a.database.sql.gz''],
      [''/benches/b/sites/s.com/private/backups/x-files.tar''], []) \<and>
   fetch_latest_backup env_database_only site0 True world0 = (Inl ValueError, world0)"
  using fetch_latest_backup_no_candidates [OF candidates_env0, of False]
        fetch_latest_backup_no_candidates [OF candidates_env_database_only, of True]
  by (simp add: candidates_env0 candidates_env_database_only)













subsection \<open>Restore and reinstall: cleanup\<close>

lemma emits_only_call: "P ev \<Longrightarrow> emits_only P (call e ev)"
  by (simp add: emits_only_def call_trace)

lemma emits_only_and_then:
  assumes "emits_only P m" and "\<And>x. emits_only P (k x)"
  shows "emits_only P (and_then m k)"
  unfolding emits_only_def
proof
  fix w
  obtain evs where evs: "trace (snd (m w)) = trace w @ evs" "list_all P evs"
    using assms(1) unfolding emits_only_def by blast
  show "\<exists>evs. trace (snd (and_then m k w)) = trace w @ evs \<and> list_all P evs"
  proof (cases "m w")
    case (Pair r w')
    show ?thesis
    proof (cases r)
      case (Inl f)
      with Pair evs show ?thesis by (auto simp: and_then_def)
    next
      case (Inr x)
      obtain evs' where evs': "trace (snd (k x w')) = trace w' @ evs'" "list_all P evs'"
        using assms(2) [of x] unfolding emits_only_def by blast
      with Pair Inr evs show ?thesis
        by (auto simp: and_then_def intro!: exI [of _ "evs @ evs'"])
    qed
  qed
qed

lemma bench_execute_trace:
  "trace (snd (bench_execute e s c w)) =
     trace w @ [DockerExecute (''bench --site '' @ name s @ '' '' @ c)]"
  by (simp add: bench_execute_def docker_execute_def call_def Let_def split: option.splits)

lemma emits_only_bench_execute:
  "(\<And>c. P (DockerExecute c)) \<Longrightarrow> emits_only P (bench_execute e s c)"
  by (simp add: emits_only_def bench_execute_trace)

lemma emits_only_uninstall_loop:
  assumes "\<And>c. P (DockerExecute c)"
  shows "emits_only P (uninstall_loop e s keep apps)"
proof (induction apps)
  case Nil
  show ?case by (simp add: emits_only_def)
next
  case (Cons app apps)
  have eq: "uninstall_loop e s keep (app # apps) =
      (if app \<notin> set (map JString keep)
       then and_then (bench_execute e s (''remove-from-installed-apps '' @ quoted (py_str e app))) (\<lambda>out.
            and_then (bench_execute e s ''clear-cache'') (\<lambda>out'.
            uninstall_loop e s keep apps))
       else uninstall_loop e s keep apps)"
    by (rule ext) (simp add: and_then_def split: prod.splits sum.splits)
  show ?case
    unfolding eq
    by (auto intro!: emits_only_and_then emits_only_bench_execute assms Cons.IH)
qed

lemma emits_only_raise: "emits_only P (\<lambda>w. (r, w))"
  by (simp add: emits_only_def)

lemma uninstall_unavailable_apps_and_then:
  "uninstall_unavailable_apps e s keep =
     and_then (bench_execute e s ''execute frappe.get_installed_apps'')
       (\<lambda>out. case json_loads e out of
                 None \<Rightarrow> (\<lambda>w. (Inl JSONDecodeError, w))
               | Some parsed \<Rightarrow>
                   (case iterate parsed of
                      Inl f \<Rightarrow> (\<lambda>w. (Inl f, w))
                    | Inr installed \<Rightarrow> uninstall_loop e s keep installed))"
  by (rule ext)
     (simp add: uninstall_unavailable_apps_def and_then_def
        split: prod.splits sum.splits option.splits)

lemma emits_only_uninstall_unavailable_apps:
  assumes "\<And>c. P (DockerExecute c)"
  shows "emits_only P (uninstall_unavailable_apps e s keep)"
  unfolding uninstall_unavailable_apps_and_then
  by (auto intro!: emits_only_and_then emits_only_bench_execute emits_only_raise
      emits_only_uninstall_loop assms split: option.splits sum.splits)

lemma emits_only_after_restore:
  assumes "\<And>c. P (DockerExecute c)" and "P SetupNginx" and "P ReloadNginx"
  shows "emits_only P (after_restore e s apps admin_password skip)"
  unfolding after_restore_def migrate_def
    set_admin_password_def enable_scheduler_def setup_nginx_def reload_nginx_def
  by (cases skip)
     (auto intro!: emits_only_and_then emits_only_bench_execute emits_only_call assms
        emits_only_uninstall_unavailable_apps)

lemma emits_only_try_finally:
  assumes "emits_only P body" and "emits_only P final"
  shows "emits_only P (try_finally body final)"
  unfolding emits_only_def
proof
  fix w
  obtain evs where evs: "trace (snd (body w)) = trace w @ evs" "list_all P evs"
    using assms(1) unfolding emits_only_def by blast
  obtain evs' where evs': "trace (snd (final (snd (body w)))) = trace (snd (body w)) @ evs'"
      "list_all P evs'"
    using assms(2) unfolding emits_only_def by blast
  have "trace (snd (try_finally body final w)) = trace (snd (final (snd (body w))))"
    by (simp add: try_finally_def split: prod.splits sum.splits)
  with evs evs' show "\<exists>evs. trace (snd (try_finally body final w)) = trace w @ evs \<and> list_all P evs"
    by (auto intro!: exI [of _ "evs @ evs'"])
qed

lemma try_finally_call_trace:
  "trace (snd (try_finally body (call e ev) w)) = trace (snd (body w)) @ [ev]"
  by (simp add: try_finally_def call_def Let_def split: prod.splits sum.splits option.splits)

lemma create_mariadb_user_trace:
  "trace (snd (create_mariadb_user e n p d w)) = trace w @ [CreateMariadbUser n p d]"
  by (simp add: create_mariadb_user_def call_def Let_def split: option.splits)

lemma create_mariadb_user_returns:
  "raises e (trace w) (CreateMariadbUser n p d) = None \<Longrightarrow>
   fst (create_mariadb_user e n p d w) = Inr (credentials e (trace w))"
  by (simp add: create_mariadb_user_def call_def Let_def)

lemma restore_and_then:
  "restore e s root_pw admin db_file pub_file priv_file =
     and_then (create_mariadb_user e (name s) root_pw (database s))
       (\<lambda>cred. try_finally (bench_execute e s (restore_bench_command s admin db_file pub_file priv_file cred))
                  (call e (DropMariadbUser (name s) root_pw (database s))))"
  by (rule ext)
     (simp add: restore_def and_then_def Let_def drop_mariadb_user_def [abs_def]
        restore_bench_command_def split: prod.splits sum.splits)

lemma reinstall_and_then:
  "reinstall e s root_pw admin =
     and_then (create_mariadb_user e (name s) root_pw (database s))
       (\<lambda>cred. try_finally (bench_execute e s (reinstall_command (fst cred) (snd cred) admin))
                  (call e (DropMariadbUser (name s) root_pw (database s))))"
  by (rule ext)
     (simp add: reinstall_def and_then_def drop_mariadb_user_def [abs_def]
        split: prod.splits sum.splits)

lemma guarded_trace:
  assumes "raises e (trace w) (CreateMariadbUser n p d) = None"
  shows "\<exists>c. new_events w
           (snd (and_then (create_mariadb_user e n p d)
                   (\<lambda>cred. try_finally (bench_execute e s (k cred)) (call e (DropMariadbUser n p d))) w)) =
         [CreateMariadbUser n p d, DockerExecute c, DropMariadbUser n p d]"
proof -
  obtain w' where w': "create_mariadb_user e n p d w = (Inr (credentials e (trace w)), w')"
    using create_mariadb_user_returns [OF assms] by (cases "create_mariadb_user e n p d w") simp
  then have "trace w' = trace w @ [CreateMariadbUser n p d]"
    using create_mariadb_user_trace [of e n p d w] by simp
  with w' show ?thesis
    by (simp add: and_then_def try_finally_call_trace bench_execute_trace new_events_def)
qed

lemma emits_only_create:
  "P (CreateMariadbUser n p d) \<Longrightarrow> emits_only P (create_mariadb_user e n p d)"
  by (simp add: emits_only_def create_mariadb_user_trace)

lemma emits_only_restore:
  assumes "\<And>c. P (DockerExecute c)" and "P (CreateMariadbUser (name s) root_pw (database s))"
    and "P (DropMariadbUser (name s) root_pw (database s))"
  shows "emits_only P (restore e s root_pw admin db_file pub_file priv_file)"
proof -
  show ?thesis
    unfolding restore_and_then
    by (auto intro!: emits_only_and_then emits_only_try_finally emits_only_bench_execute
        emits_only_call emits_only_create assms)
qed

lemma restore_job_deletes:
  assumes "raises e (trace w) (DownloadFiles (name s) db pub priv) = None"
  shows "count_list (new_events w (snd (restore_job e s apps root_pw admin db pub priv skip w)))
           (DeleteDownloadedFiles (files_directory (downloaded e (trace w)))) = 1"
proof -
  let ?D = "DeleteDownloadedFiles (files_directory (downloaded e (trace w)))"
  let ?P = "\<lambda>ev. ev \<noteq> ?D"
  let ?files = "downloaded e (trace w)"
  let ?body = "restore e s root_pw admin (files_database ?files) (files_public ?files)
                 (files_private ?files)"
  let ?after = "after_restore e s apps admin skip"
  obtain w1 where w1: "download_files e (name s) db pub priv w = (Inr ?files, w1)"
      "trace w1 = trace w @ [DownloadFiles (name s) db pub priv]"
    using assms by (simp add: download_files_def call_def Let_def)
  obtain evs where evs: "trace (snd (?body w1)) = trace w1 @ evs" "list_all ?P evs"
    using emits_only_restore [of ?P s root_pw e admin] unfolding emits_only_def by blast
  let ?T = "try_finally ?body (call e ?D) w1"
  have T: "trace (snd ?T) = trace w1 @ evs @ [?D]"
    by (simp add: try_finally_call_trace evs)
  obtain evs' where evs': "trace (snd (?after (snd ?T))) = trace (snd ?T) @ evs'" "list_all ?P evs'"
    using emits_only_after_restore [of ?P e s apps admin skip] unfolding emits_only_def by blast
  have job: "restore_job e s apps root_pw admin db pub priv skip w =
      and_then (try_finally ?body (call e ?D)) (\<lambda>out. ?after) w1"
    using w1 by (simp add: restore_job_def delete_downloaded_files_def [abs_def])
  have "trace (snd (restore_job e s apps root_pw admin db pub priv skip w)) = trace (snd ?T) \<or>
        trace (snd (restore_job e s apps root_pw admin db pub priv skip w)) = trace (snd (?after (snd ?T)))"
    unfolding job by (cases ?T) (auto simp: and_then_def split: sum.splits)
  then have "\<exists>post. list_all ?P post \<and>
      new_events w (snd (restore_job e s apps root_pw admin db pub priv skip w)) =
        DownloadFiles (name s) db pub priv # evs @ [?D] @ post"
  proof
    assume "trace (snd (restore_job e s apps root_pw admin db pub priv skip w)) = trace (snd ?T)"
    then show ?thesis
      by (intro exI [of _ "[]"]) (simp add: T w1 new_events_def)
  next
    assume "trace (snd (restore_job e s apps root_pw admin db pub priv skip w)) =
        trace (snd (?after (snd ?T)))"
    then show ?thesis
      using evs' by (intro exI [of _ evs']) (simp add: T w1 new_events_def)
  qed
  then obtain post where post: "list_all ?P post"
      "new_events w (snd (restore_job e s apps root_pw admin db pub priv skip w)) =
        DownloadFiles (name s) db pub priv # evs @ [?D] @ post"
    by blast
  have zero: "\<And>xs. list_all ?P xs \<Longrightarrow> count_list xs ?D = 0"
    by (auto simp: list_all_iff count_list_0_iff)
  show ?thesis
    by (simp add: post(2) zero [OF evs(2)] zero [OF post(1)])
qed

lemma restore_guarded:
  assumes "raises e (trace w) (CreateMariadbUser (name s) root_pw (database s)) = None"
  shows "\<exists>c. new_events w (snd (restore e s root_pw admin db_file pub_file priv_file w)) =
           [CreateMariadbUser (name s) root_pw (database s), DockerExecute c,
            DropMariadbUser (name s) root_pw (database s)]"
  unfolding restore_and_then by (rule guarded_trace [OF assms])

lemma reinstall_guarded:
  assumes "raises e (trace w) (CreateMariadbUser (name s) root_pw (database s)) = None"
  shows "\<exists>c. new_events w (snd (reinstall e s root_pw admin w)) =
           [CreateMariadbUser (name s) root_pw (database s), DockerExecute c,
            DropMariadbUser (name s) root_pw (database s)]"
  unfolding reinstall_and_then by (rule guarded_trace [OF assms])

text \<open>
  C1. Once \<open>create_mariadb_user\<close> has returned, \<open>restore\<close> and \<open>reinstall\<close> each make exactly
  three calls, whatever the wrapped command does: the creation of the credential, the
  command, and one \<open>drop_mariadb_user\<close>. Once \<open>download_files\<close> has returned, \<open>restore_job\<close>
  calls \<open>delete_downloaded_files\<close> on the downloaded directory exactly once, whatever the
  restore step does.
\<close>

theorem cleanup_on_every_exit:
  "(raises e (trace w) (CreateMariadbUser (name s) root_pw (database s)) = None \<longrightarrow>
      (\<exists>c. new_events w (snd (restore e s root_pw admin db_file pub_file priv_file w)) =
           [CreateMariadbUser (name s) root_pw (database s), DockerExecute c,
            DropMariadbUser (name s) root_pw (database s)]) \<and>
      (\<exists>c. new_events w (snd (reinstall e s root_pw admin w)) =
           [CreateMariadbUser (name s) root_pw (database s), DockerExecute c,
            DropMariadbUser (name s) root_pw (database s)])) \<and>
   (raises e (trace w) (DownloadFiles (name s) db pub priv) = None \<longrightarrow>
      count_list (new_events w (snd (restore_job e s apps root_pw admin db pub priv skip w)))
        (DeleteDownloadedFiles (files_directory (downloaded e (trace w)))) = 1)"
  using restore_guarded [of e w s root_pw admin db_file pub_file priv_file]
        reinstall_guarded [of e w s root_pw admin]
        restore_job_deletes [of e w s db pub priv apps root_pw admin skip]
  by blast

lemma restore_env_failing:
  "restore env_failing site0 ''root'' ''admin'' ''/benches/b/sites/s.com/d/db.sql.gz'' [] [] world0 =
     (Inl (AgentException ''exit 1''),
      world0\<lparr>trace := [CreateMariadbUser ''s.com'' ''root'' ''_db'',
                        DockerExecute (''bench --site s.com --force restore '' @
                          ''--mariadb-root-username tmp_user --mariadb-root-password tmp_pass '' @
                          ''--admin-password admin   /home/frappe/frappe-bench/sites/s.com/d/db.sql.gz''),
                        DropMariadbUser ''s.com'' ''root'' ''_db'']\<rparr>)"
  by (simp add: restore_def create_mariadb_user_def drop_mariadb_user_def try_finally_def
      bench_execute_def docker_execute_def call_def Let_def env_failing_def env0_def site0_def
      world0_def restore_command_def)

lemma restore_job_env_failing:
  "fst (restore_job env_failing site0 [''frappe''] ''root'' ''admin'' ''db'' ''pub'' ''priv'' False world0) =
     Inl (AgentException ''exit 1'')"
  by (simp add: restore_job_def download_files_def delete_downloaded_files_def and_then_def
      restore_def create_mariadb_user_def drop_mariadb_user_def try_finally_def
      bench_execute_def docker_execute_def call_def Let_def env_failing_def env0_def site0_def
      world0_def restore_command_def)

lemma reinstall_env_failing:
  "fst (reinstall env_failing site0 ''root'' ''admin'' world0) = Inl (AgentException ''exit 1'')"
  by (simp add: reinstall_def create_mariadb_user_def drop_mariadb_user_def try_finally_def
      bench_execute_def docker_execute_def call_def Let_def env_failing_def env0_def site0_def
      world0_def reinstall_command_def)

text \<open>
  Witness for C1: every bench command raises; the restore step, the reinstall step and the
  restore job fail, the credential is dropped and the downloaded files are deleted.
\<close>

theorem cleanup_on_every_exit_witness:
  "raises env_failing (trace world0) (CreateMariadbUser (name site0) ''root'' (database site0)) = None \<and>
   fst (restore env_failing site0 ''root'' ''admin'' ''/benches/b/sites/s.com/d/db.sql.gz'' [] [] world0) =
     Inl (AgentException ''exit 1'') \<and>
   (\<exists>c. new_events world0
      (snd (restore env_failing site0 ''root'' ''admin'' ''/benches/b/sites/s.com/d/db.sql.gz'' [] [] world0)) =
      [CreateMariadbUser ''s.com'' ''root'' ''_db'', DockerExecute c,
       DropMariadbUser ''s.com'' ''root'' ''_db'']) \<and>
   fst (reinstall env_failing site0 ''root'' ''admin'' world0) = Inl (AgentException ''exit 1'') \<and>
   (\<exists>c. new_events world0 (snd (reinstall env_failing site0 ''root'' ''admin'' world0)) =
      [CreateMariadbUser ''s.com'' ''root'' ''_db'', DockerExecute c,
       DropMariadbUser ''s.com'' ''root'' ''_db'']) \<and>
   raises env_failing (trace world0) (DownloadFiles (name site0) ''db'' ''pub'' ''priv'') = None \<and>
   fst (restore_job env_failing site0 [''frappe''] ''root'' ''admin'' ''db'' ''pub'' ''priv'' False world0) =
     Inl (AgentException ''exit 1'') \<and>
   count_list
     (new_events world0
        (snd (restore_job env_failing site0 [''frappe''] ''root'' ''admin'' ''db'' ''pub'' ''priv'' False world0)))
     (DeleteDownloadedFiles ''/benches/b/sites/s.com/d'') = 1"
proof -
  have c: "raises env_failing (trace world0) (CreateMariadbUser (name site0) ''root'' (database site0)) = None"
    by (simp add: env_failing_def)
  have d: "raises env_failing (trace world0) (DownloadFiles (name site0) ''db'' ''pub'' ''priv'') = None"
    by (simp add: env_failing_def)
  have f: "files_directory (downloaded env_failing (trace world0)) = ''/benches/b/sites/s.com/d''"
    by (simp add: env_failing_def env0_def)
  have n: "name site0 = ''s.com''" "database site0 = ''_db''"
    by (simp_all add: site0_def)
  from cleanup_on_every_exit [of env_failing world0 site0 "''root''" "''admin''"
      "''/benches/b/sites/s.com/d/db.sql.gz''" "[]" "[]" "''db''" "''pub''" "''priv''" "[''frappe'']" False]
  show ?thesis
    using c d by (simp add: f n restore_env_failing restore_job_env_failing reinstall_env_failing)
qed

subsection \<open>Reconciling the installed apps\<close>

lemma bench_effect_remove:
  "bench_effect (''remove-from-installed-apps '' @ quoted app) apps = filter (\<lambda>a. a \<noteq> app) apps"
  by (simp add: bench_effect_def quoted_def eq_commute)

lemma bench_effect_clear_cache: "bench_effect ''clear-cache'' apps = apps"
  by (simp add: bench_effect_def)

lemma bench_effect_get: "bench_effect ''execute frappe.get_installed_apps'' apps = apps"
  by (simp add: bench_effect_def)

lemma bench_execute_Inr:
  "bench_execute e s c w = (Inr out, w') \<Longrightarrow>
   installed_apps w' = bench_effect c (installed_apps w) \<and>
   trace w' = trace w @ [DockerExecute (''bench --site '' @ name s @ '' '' @ c)]"
  by (auto simp: bench_execute_def docker_execute_def call_def Let_def
      split: option.splits prod.splits sum.splits)

lemma bench_execute_reliable:
  "reliable e \<Longrightarrow> \<exists>out w'. bench_execute e s c w = (Inr out, w')"
  by (simp add: bench_execute_def docker_execute_def call_def Let_def reliable_def)

lemma bench_execute_Inr_answer:
  "bench_execute e s c w = (Inr out, w') \<Longrightarrow>
   raises e (trace w) (DockerExecute (''bench --site '' @ name s @ '' '' @ c)) = None \<and>
   out = stdout e (trace w) (''bench --site '' @ name s @ '' '' @ c)"
  by (auto simp: bench_execute_def docker_execute_def call_def Let_def
      split: option.splits prod.splits sum.splits)

lemma py_str_string: "py_str e (JString x) = x"
  by (simp add: py_str_def)

lemma uninstall_loop_Inr:
  "uninstall_loop e s keep (map JString apps) w = (Inr u, w') \<Longrightarrow>
   installed_apps w' = filter (\<lambda>a. a \<in> set keep \<or> a \<notin> set apps) (installed_apps w) \<and>
   trace w' = trace w @ removal_commands s keep apps"
proof (induction apps arbitrary: w)
  case Nil
  then show ?case by (simp add: removal_commands_def)
next
  case (Cons app apps)
  have mem: "JString app \<in> set (map JString keep) \<longleftrightarrow> app \<in> set keep"
    by auto
  show ?case
  proof (cases "app \<in> set keep")
    case True
    with Cons.prems have "uninstall_loop e s keep (map JString apps) w = (Inr u, w')"
      by (simp add: mem del: set_map)
    from Cons.IH [OF this] True show ?thesis
      by (auto simp: removal_commands_def intro: filter_cong)
  next
    case False
    with Cons.prems obtain out w1 out' w2 where
      1: "bench_execute e s (''remove-from-installed-apps '' @ quoted app) w = (Inr out, w1)" and
      2: "bench_execute e s ''clear-cache'' w1 = (Inr out', w2)" and
      3: "uninstall_loop e s keep (map JString apps) w2 = (Inr u, w')"
      by (auto simp: mem py_str_string simp del: set_map split: prod.splits sum.splits)
    have "installed_apps w1 = filter (\<lambda>a. a \<noteq> app) (installed_apps w)"
      using bench_execute_Inr [OF 1] by (simp only: bench_effect_remove)
    moreover have "installed_apps w2 = installed_apps w1"
      using bench_execute_Inr [OF 2] by (simp only: bench_effect_clear_cache)
    ultimately have "installed_apps w2 = filter (\<lambda>a. a \<noteq> app) (installed_apps w)"
      by simp
    moreover have "trace w2 = trace w @
            [DockerExecute (''bench --site '' @ name s @ '' remove-from-installed-apps '' @ quoted app),
             DockerExecute (''bench --site '' @ name s @ '' clear-cache'')]"
      using bench_execute_Inr [OF 1] bench_execute_Inr [OF 2] by simp
    ultimately show ?thesis
      using Cons.IH [OF 3] False
      by (auto simp: removal_commands_def intro: filter_cong)
  qed
qed

lemma uninstall_loop_reliable:
  "reliable e \<Longrightarrow> fst (uninstall_loop e s keep apps w) = Inr ()"
proof (induction apps arbitrary: w)
  case Nil
  show ?case by simp
next
  case (Cons app apps)
  obtain out w1 where 1:
    "bench_execute e s (''remove-from-installed-apps '' @ quoted (py_str e app)) w = (Inr out, w1)"
    using bench_execute_reliable [OF Cons.prems] by blast
  obtain out' w2 where 2: "bench_execute e s ''clear-cache'' w1 = (Inr out', w2)"
    using bench_execute_reliable [OF Cons.prems] by blast
  show ?case
    using 1 2 Cons.IH [OF Cons.prems] by simp
qed

lemma uninstall_unavailable_apps_Inr:
  assumes parsed: "json_loads e (stdout e (trace w) (installed_query s)) =
      Some (JArray (map JString apps))"
    and ok: "fst (uninstall_unavailable_apps e s keep w) = Inr ()"
  shows "installed_apps (snd (uninstall_unavailable_apps e s keep w)) =
           filter (\<lambda>a. a \<in> set keep \<or> a \<notin> set apps) (installed_apps w) \<and>
         new_events w (snd (uninstall_unavailable_apps e s keep w)) =
           DockerExecute (installed_query s) # removal_commands s keep apps"
proof -
  obtain out w1 where 1: "bench_execute e s ''execute frappe.get_installed_apps'' w = (Inr out, w1)"
    using ok
    by (cases "bench_execute e s ''execute frappe.get_installed_apps'' w")
       (auto simp: uninstall_unavailable_apps_def split: sum.splits)
  have out: "out = stdout e (trace w) (installed_query s)"
    using bench_execute_Inr_answer [OF 1] by (simp add: installed_query_def)
  have w1: "installed_apps w1 = installed_apps w"
    "trace w1 = trace w @ [DockerExecute (installed_query s)]"
    using bench_execute_Inr [OF 1] by (simp only: bench_effect_get, simp add: installed_query_def)
  have r: "uninstall_unavailable_apps e s keep w = uninstall_loop e s keep (map JString apps) w1"
    using 1 parsed by (simp add: uninstall_unavailable_apps_def out)
  obtain w' where 2: "uninstall_loop e s keep (map JString apps) w1 = (Inr (), w')"
    using ok r by (cases "uninstall_loop e s keep (map JString apps) w1") auto
  from uninstall_loop_Inr [OF 2] w1 show ?thesis
    by (auto simp: r 2 new_events_def intro: filter_cong)
qed

lemma uninstall_unavailable_apps_reliable:
  assumes parsed: "json_loads e (stdout e (trace w) (installed_query s)) =
      Some (JArray (map JString apps))"
    and "reliable e"
  shows "fst (uninstall_unavailable_apps e s keep w) = Inr ()"
proof -
  obtain out w1 where 1: "bench_execute e s ''execute frappe.get_installed_apps'' w = (Inr out, w1)"
    using bench_execute_reliable [OF assms(2)] by blast
  have out: "out = stdout e (trace w) (installed_query s)"
    using bench_execute_Inr_answer [OF 1] by (simp add: installed_query_def)
  show ?thesis
    using 1 parsed uninstall_loop_reliable [OF assms(2)]
    by (simp add: uninstall_unavailable_apps_def out)
qed

lemma uninstall_unavailable_apps_undecodable:
  assumes "reliable e"
    and "json_loads e (stdout e (trace w) (installed_query s)) = None"
  shows "fst (uninstall_unavailable_apps e s keep w) = Inl JSONDecodeError \<and>
         new_events w (snd (uninstall_unavailable_apps e s keep w)) =
           [DockerExecute (installed_query s)]"
proof -
  obtain out w1 where 1: "bench_execute e s ''execute frappe.get_installed_apps'' w = (Inr out, w1)"
    using bench_execute_reliable [OF assms(1)] by blast
  have out: "out = stdout e (trace w) (installed_query s)"
    using bench_execute_Inr_answer [OF 1] by (simp add: installed_query_def)
  have "trace w1 = trace w @ [DockerExecute (installed_query s)]"
    using bench_execute_Inr [OF 1] by (simp add: installed_query_def)
  then show ?thesis
    using 1 assms(2) by (simp add: uninstall_unavailable_apps_def out new_events_def)
qed

text \<open>
  C7. Let the query for the installed apps print a JSON list of strings, \<open>apps\<close>. Then
  \<open>uninstall_unavailable_apps\<close> returns whenever no collaborator fails, and when it returns
  it has issued, after the query, one removal (followed by a cache clear) for each app of
  \<open>apps\<close> that is not in \<open>apps_to_keep\<close> and for no other app; the apps then installed are the
  previously installed apps that are in \<open>apps_to_keep\<close> or not in \<open>apps\<close>. So when the query
  reports the installed apps, the apps left are the installed apps that are in
  \<open>apps_to_keep\<close>.
\<close>

theorem uninstall_unavailable_apps_reconciles:
  assumes "json_loads e (stdout e (trace w) (installed_query s)) = Some (JArray (map JString apps))"
  shows "(reliable e \<longrightarrow> fst (uninstall_unavailable_apps e s apps_to_keep w) = Inr ()) \<and>
   (fst (uninstall_unavailable_apps e s apps_to_keep w) = Inr () \<longrightarrow>
      new_events w (snd (uninstall_unavailable_apps e s apps_to_keep w)) =
        DockerExecute (installed_query s) # removal_commands s apps_to_keep apps \<and>
      installed_apps (snd (uninstall_unavailable_apps e s apps_to_keep w)) =
        filter (\<lambda>app. app \<in> set apps_to_keep \<or> app \<notin> set apps) (installed_apps w) \<and>
      (set apps = set (installed_apps w) \<longrightarrow>
         installed_apps (snd (uninstall_unavailable_apps e s apps_to_keep w)) =
           filter (\<lambda>app. app \<in> set apps_to_keep) (installed_apps w) \<and>
         set (installed_apps (snd (uninstall_unavailable_apps e s apps_to_keep w))) =
           set apps_to_keep \<inter> set (installed_apps w)))"
proof (intro conjI impI)
  assume "reliable e"
  then show "fst (uninstall_unavailable_apps e s apps_to_keep w) = Inr ()"
    by (rule uninstall_unavailable_apps_reliable [OF assms])
next
  assume ok: "fst (uninstall_unavailable_apps e s apps_to_keep w) = Inr ()"
  show "new_events w (snd (uninstall_unavailable_apps e s apps_to_keep w)) =
        DockerExecute (installed_query s) # removal_commands s apps_to_keep apps"
    using uninstall_unavailable_apps_Inr [OF assms ok] by simp
  show "installed_apps (snd (uninstall_unavailable_apps e s apps_to_keep w)) =
        filter (\<lambda>app. app \<in> set apps_to_keep \<or> app \<notin> set apps) (installed_apps w)"
    using uninstall_unavailable_apps_Inr [OF assms ok] by simp
next
  assume ok: "fst (uninstall_unavailable_apps e s apps_to_keep w) = Inr ()"
    and same: "set apps = set (installed_apps w)"
  have "installed_apps (snd (uninstall_unavailable_apps e s apps_to_keep w)) =
        filter (\<lambda>app. app \<in> set apps_to_keep \<or> app \<notin> set apps) (installed_apps w)"
    using uninstall_unavailable_apps_Inr [OF assms ok] by simp
  also have "\<dots> = filter (\<lambda>app. app \<in> set apps_to_keep) (installed_apps w)"
    using same by (auto intro: filter_cong)
  finally show kept: "installed_apps (snd (uninstall_unavailable_apps e s apps_to_keep w)) =
        filter (\<lambda>app. app \<in> set apps_to_keep) (installed_apps w)" .
  then show "set (installed_apps (snd (uninstall_unavailable_apps e s apps_to_keep w))) =
        set apps_to_keep \<inter> set (installed_apps w)"
    by auto
qed

lemma env_apps_parsed:
  "json_loads env_apps (stdout env_apps h c) =
     Some (JArray (map JString [''frappe'', ''crm'', ''hr'']))"
  by (simp add: env_apps_def)

lemma reliable_env_apps: "reliable env_apps"
  by (simp add: reliable_def env_apps_def env0_def)

text \<open>
  Witness for C7: \<open>frappe\<close>, \<open>crm\<close> and \<open>hr\<close> are installed and reported, \<open>frappe\<close> and \<open>crm\<close>
  are kept; \<open>hr\<close> alone is removed. Where the output of the query is no JSON text, the
  step raises after the query.
\<close>

theorem uninstall_unavailable_apps_reconciles_witness:
  "json_loads env_apps (stdout env_apps (trace world_apps) (installed_query site0)) =
     Some (JArray (map JString [''frappe'', ''crm'', ''hr''])) \<and>
   reliable env_apps \<and>
   set [''frappe'', ''crm'', ''hr''] = set (installed_apps world_apps) \<and>
   fst (uninstall_unavailable_apps env_apps site0 [''frappe'', ''crm''] world_apps) = Inr () \<and>
   installed_apps (snd (uninstall_unavailable_apps env_apps site0 [''frappe'', ''crm''] world_apps)) =
     [''frappe'', ''crm''] \<and>
   new_events world_apps (snd (uninstall_unavailable_apps env_apps site0 [''frappe'', ''crm''] world_apps)) =
     [DockerExecute ''bench --site s.com execute frappe.get_installed_apps'',
      DockerExecute (''bench --site s.com remove-from-installed-apps '' @ quoted ''hr''),
      DockerExecute ''bench --site s.com clear-cache''] \<and>
   fst (uninstall_unavailable_apps env0 site0 [''frappe'', ''crm''] world_apps) = Inl JSONDecodeError"
proof -
  have same: "set [''frappe'', ''crm'', ''hr''] = set (installed_apps world_apps)"
    by (simp add: world_apps_def)
  note inst = uninstall_unavailable_apps_reconciles
      [OF env_apps_parsed [of "trace world_apps" "installed_query site0"],
       of "[''frappe'', ''crm'']"]
  from inst reliable_env_apps
  have ok: "fst (uninstall_unavailable_apps env_apps site0 [''frappe'', ''crm''] world_apps) = Inr ()"
    by simp
  from inst ok same
  have left: "installed_apps (snd (uninstall_unavailable_apps env_apps site0 [''frappe'', ''crm''] world_apps)) =
     [''frappe'', ''crm'']"
    by (simp add: world_apps_def)
  from inst ok
  have events: "new_events world_apps (snd (uninstall_unavailable_apps env_apps site0 [''frappe'', ''crm''] world_apps)) =
     [DockerExecute ''bench --site s.com execute frappe.get_installed_apps'',
      DockerExecute (''bench --site s.com remove-from-installed-apps '' @ quoted ''hr''),
      DockerExecute ''bench --site s.com clear-cache'']"
    by (simp add: removal_commands_def installed_query_def site0_fields)
  have undecodable:
    "fst (uninstall_unavailable_apps env0 site0 [''frappe'', ''crm''] world_apps) = Inl JSONDecodeError"
    using uninstall_unavailable_apps_undecodable [OF reliable_env0, of world_apps site0]
    by (simp add: env0_def)
  show ?thesis
    by (intro conjI env_apps_parsed reliable_env_apps same ok left events undecodable)
qed

subsection \<open>Table-wise backup\<close>

lemma execute_Inr:
  "execute e c w = (Inr out, w') \<Longrightarrow>
   out = stdout e (trace w) c \<and> trace w' = trace w @ [Execute c]"
  by (auto simp: execute_def call_def Let_def split: option.splits)

lemma execute_reliable: "reliable e \<Longrightarrow> \<exists>out w'. execute e c w = (Inr out, w')"
  by (simp add: execute_def call_def Let_def reliable_def)

lemma dump_loop_Inr:
  "dump_loop e s ts data w = (Inr data', w') \<Longrightarrow>
   trace w' = trace w @ map (\<lambda>t. Execute (dump_command s t)) ts \<and>
   dom data' = dom data \<union> set ts"
proof (induction ts arbitrary: data w)
  case Nil
  then show ?case by simp
next
  case (Cons t ts)
  from Cons.prems obtain out w1 where
    1: "execute e (dump_command s t) w = (Inr out, w1)" and
    2: "dump_loop e s ts (data(t \<mapsto> out)) w1 = (Inr data', w')"
    by (auto split: prod.splits sum.splits)
  from execute_Inr [OF 1] Cons.IH [OF 2] show ?case by auto
qed

lemma dump_loop_reliable:
  "reliable e \<Longrightarrow> \<exists>data' w'. dump_loop e s ts data w = (Inr data', w')"
proof (induction ts arbitrary: data w)
  case Nil
  show ?case by simp
next
  case (Cons t ts)
  obtain out w1 where 1: "execute e (dump_command s t) w = (Inr out, w1)"
    using execute_reliable [OF Cons.prems] by blast
  obtain data' w' where "dump_loop e s ts (data(t \<mapsto> out)) w1 = (Inr data', w')"
    using Cons.IH [OF Cons.prems] by blast
  with 1 show ?case by (simp del: fun_upd_apply)
qed

lemma tablewise_backup_Inr:
  assumes "fst (tablewise_backup e s w) = Inr data"
  shows "new_events w (snd (tablewise_backup e s w)) =
           Execute (tables_command s) #
           map (\<lambda>t. Execute (dump_command s t))
             (split_on (CHR 0x0A) (stdout e (trace w) (tables_command s))) \<and>
         dom data = set (split_on (CHR 0x0A) (stdout e (trace w) (tables_command s)))"
proof -
  obtain out w1 where 1: "execute e (tables_command s) w = (Inr out, w1)"
    using assms
    by (cases "execute e (tables_command s) w")
       (auto simp: tablewise_backup_def tables_def split: sum.splits)
  obtain w' where 2: "dump_loop e s (split_on (CHR 0x0A) out) Map.empty w1 = (Inr data, w')"
    using assms 1
    by (cases "dump_loop e s (split_on (CHR 0x0A) out) Map.empty w1")
       (auto simp: tablewise_backup_def tables_def)
  have r: "tablewise_backup e s w = (Inr data, w')"
    using 1 2 by (simp add: tablewise_backup_def tables_def)
  from execute_Inr [OF 1] dump_loop_Inr [OF 2] show ?thesis
    by (simp add: r new_events_def)
qed

lemma tablewise_backup_reliable:
  assumes "reliable e"
  shows "\<exists>data. fst (tablewise_backup e s w) = Inr data"
proof -
  obtain out w1 where 1: "execute e (tables_command s) w = (Inr out, w1)"
    using execute_reliable [OF assms] by blast
  obtain data w' where "dump_loop e s (split_on (CHR 0x0A) out) Map.empty w1 = (Inr data, w')"
    using dump_loop_reliable [OF assms] by blast
  with 1 show ?thesis
    by (simp add: tablewise_backup_def tables_def)
qed

lemma clear_backup_directory_reliable:
  assumes "reliable e"
  shows "fst (clear_backup_directory e s w) = Inr () \<and>
         new_events w (snd (clear_backup_directory e s w)) =
           (if path_exists e (trace w) (backup_directory s)
            then [Rmtree (backup_directory s), Mkdir (backup_directory s)]
            else [Mkdir (backup_directory s)])"
  using assms
  by (simp add: clear_backup_directory_def and_then_def call_def Let_def reliable_def
      new_events_def)

lemma dump_command_shape:
  "prefix ''mysqldump --single-transaction '' (dump_command s t) \<and>
   suffix (quoted t @ '' > '' @ quoted (path_join (backup_directory s) (t @ ''.sql'')))
     (dump_command s t)"
  by (simp add: dump_command_def Let_def suffix_def)

text \<open>
  C6, as amended. \<open>tablewise_backup\<close> leaves the staging directory alone: it runs the table
  query and then, for every entry of the table list in order, one dump command, and records
  one output entry per table; each dump is a \<open>mysqldump --single-transaction\<close> of the table
  into \<open><table>.sql\<close> in the staging directory. Clearing is the step
  \<open>clear_backup_directory\<close>: it removes the directory when it exists and creates it. Both
  steps return whenever no collaborator fails.
\<close>

theorem tablewise_backup_dumps_tables:
  "(reliable e \<longrightarrow>
      (\<exists>data. fst (tablewise_backup e s w) = Inr data) \<and>
      fst (clear_backup_directory e s w) = Inr () \<and>
      new_events w (snd (clear_backup_directory e s w)) =
        (if path_exists e (trace w) (backup_directory s)
         then [Rmtree (backup_directory s), Mkdir (backup_directory s)]
         else [Mkdir (backup_directory s)])) \<and>
   (\<forall>data. fst (tablewise_backup e s w) = Inr data \<longrightarrow>
      new_events w (snd (tablewise_backup e s w)) =
        Execute (tables_command s) #
        map (\<lambda>t. Execute (dump_command s t))
          (split_on (CHR 0x0A) (stdout e (trace w) (tables_command s))) \<and>
      dom data = set (split_on (CHR 0x0A) (stdout e (trace w) (tables_command s)))) \<and>
   (\<forall>t. prefix ''mysqldump --single-transaction '' (dump_command s t) \<and>
        suffix (quoted t @ '' > '' @ quoted (path_join (backup_directory s) (t @ ''.sql'')))
          (dump_command s t))"
  using tablewise_backup_reliable [of e s w] clear_backup_directory_reliable [of e s w]
        tablewise_backup_Inr [of e s w] dump_command_shape [of s]
  by blast

lemma tables_env_tables:
  "split_on (CHR 0x0A) (stdout env_tables h (tables_command site0)) = [''tabUser'', ''tabRole'']"
  by (simp add: env_tables_def tables_command_def)

lemma tablewise_backup_env_tables:
  "tablewise_backup env_tables site0 world0 =
     (Inr [''tabUser'' \<mapsto> ''done'', ''tabRole'' \<mapsto> ''done''],
      world0\<lparr>trace := [Execute (tables_command site0), Execute (dump_command site0 ''tabUser''),
                        Execute (dump_command site0 ''tabRole'')]\<rparr>)"
proof -
  have r: "raises env_tables = (\<lambda>h ev. None)" "micros env_tables = (\<lambda>h ev. 0)"
    by (simp_all add: env_tables_def env0_def)
  have o: "\<And>h t. stdout env_tables h (dump_command site0 t) = ''done''"
    by (simp add: env_tables_def dump_command_def Let_def)
  show ?thesis
    by (simp add: tablewise_backup_def tables_def execute_def call_def Let_def r o
        tables_env_tables world0_fields)
qed

text \<open>
  Counterexample to C6 as stated: the staging directory exists and the database has two
  tables; \<open>tablewise_backup\<close> returns after the query and the two dumps, and has neither
  removed nor created the staging directory.
\<close>

theorem tablewise_backup_keeps_directory_counterexample:
  "path_exists env_tables (trace world0) (backup_directory site0) \<and>
   fst (tablewise_backup env_tables site0 world0) =
     Inr [''tabUser'' \<mapsto> ''done'', ''tabRole'' \<mapsto> ''done''] \<and>
   new_events world0 (snd (tablewise_backup env_tables site0 world0)) =
     [Execute (tables_command site0), Execute (dump_command site0 ''tabUser''),
      Execute (dump_command site0 ''tabRole'')] \<and>
   Rmtree (backup_directory site0) \<notin> set (new_events world0 (snd (tablewise_backup env_tables site0 world0))) \<and>
   Mkdir (backup_directory site0) \<notin> set (new_events world0 (snd (tablewise_backup env_tables site0 world0)))"
proof -
  have "path_exists env_tables (trace world0) (backup_directory site0)"
    by (simp add: env_tables_def)
  then show ?thesis
    by (simp add: tablewise_backup_env_tables new_events_def world0_fields)
qed

text \<open>
  Witness for C6: the same two tables, with every command succeeding.
\<close>

theorem tablewise_backup_dumps_tables_witness:
  "reliable env_tables \<and>
   fst (clear_backup_directory env_tables site0 world0) = Inr () \<and>
   new_events world0 (snd (clear_backup_directory env_tables site0 world0)) =
     [Rmtree ''/benches/b/sites/s.com/.migrate'', Mkdir ''/benches/b/sites/s.com/.migrate''] \<and>
   fst (tablewise_backup env_tables site0 world0) =
     Inr [''tabUser'' \<mapsto> ''done'', ''tabRole'' \<mapsto> ''done''] \<and>
   new_events world0 (snd (tablewise_backup env_tables site0 world0)) =
     [Execute (tables_command site0), Execute (dump_command site0 ''tabUser''),
      Execute (dump_command site0 ''tabRole'')] \<and>
   dom [''tabUser'' \<mapsto> ''done'', ''tabRole'' \<mapsto> ''done''] = {''tabUser'', ''tabRole''} \<and>
   dump_command site0 ''tabUser'' =
     ''mysqldump --single-transaction --quick --lock-tables=false -h localhost -u _db -ppw _db '' @
     quoted ''tabUser'' @ '' > '' @ quoted ''/benches/b/sites/s.com/.migrate/tabUser.sql''"
proof -
  have rel: "reliable env_tables"
    by (simp add: reliable_def env_tables_def env0_def)
  have ex: "path_exists env_tables (trace world0) (backup_directory site0)"
    by (simp add: env_tables_def)
  have dir: "backup_directory site0 = ''/benches/b/sites/s.com/.migrate''"
    by (simp add: backup_directory_def site0_def path_join_def endswith_def suffix_to_prefix)
  have cmd: "dump_command site0 ''tabUser'' =
     ''mysqldump --single-transaction --quick --lock-tables=false -h localhost -u _db -ppw _db '' @
     quoted ''tabUser'' @ '' > '' @ quoted ''/benches/b/sites/s.com/.migrate/tabUser.sql''"
    by (simp add: dump_command_def dir Let_def path_join_def endswith_def suffix_to_prefix
        site0_fields)
  from tablewise_backup_dumps_tables [of env_tables site0 world0] rel ex
  have c: "fst (clear_backup_directory env_tables site0 world0) = Inr ()"
    "new_events world0 (snd (clear_backup_directory env_tables site0 world0)) =
          [Rmtree ''/benches/b/sites/s.com/.migrate'', Mkdir ''/benches/b/sites/s.com/.migrate'']"
    by (simp_all add: dir)
  have t: "fst (tablewise_backup env_tables site0 world0) =
     Inr [''tabUser'' \<mapsto> ''done'', ''tabRole'' \<mapsto> ''done'']"
    "new_events world0 (snd (tablewise_backup env_tables site0 world0)) =
     [Execute (tables_command site0), Execute (dump_command site0 ''tabUser''),
      Execute (dump_command site0 ''tabRole'')]"
    by (simp_all add: tablewise_backup_env_tables new_events_def world0_fields)
  have d: "dom [''tabUser'' \<mapsto> ''done'', ''tabRole'' \<mapsto> ''done''] = {''tabUser'', ''tabRole''}"
    by auto
  show ?thesis
    by (intro conjI rel c t d cmd)
qed

subsection \<open>Readiness polling\<close>











subsection \<open>Domains\<close>

lemma hash_key_string: "hash_key y = Some (HStr d) \<longleftrightarrow> y = JString d"
  by (cases y) auto

lemma hash_key_string_sym: "Some (HStr d) = hash_key y \<longleftrightarrow> y = JString d"
  by (cases y) auto

lemma set_add_string:
  "set_add (JString d) elems = Inr (if JString d \<in> set elems then elems else elems @ [JString d])"
  by (auto simp: set_add_def hash_key_string_sym image_iff)

lemma set_discard_string:
  "set_discard (JString d) elems = Inr (filter (\<lambda>y. y \<noteq> JString d) elems)"
  by (simp add: set_discard_def hash_key_string)

lemma add_all_strings:
  "\<exists>r. add_all (map JString ds) acc = Inr r \<and> set r = set acc \<union> JString ` set ds \<and>
       (distinct acc \<longrightarrow> distinct r)"
proof (induction ds arbitrary: acc)
  case Nil
  show ?case by simp
next
  case (Cons d ds)
  obtain r where "add_all (map JString ds)
        (if JString d \<in> set acc then acc else acc @ [JString d]) = Inr r"
      "set r = set (if JString d \<in> set acc then acc else acc @ [JString d]) \<union> JString ` set ds"
      "distinct (if JString d \<in> set acc then acc else acc @ [JString d]) \<longrightarrow> distinct r"
    using Cons.IH by blast
  then show ?case
    by (intro exI [of _ r]) (auto simp: set_add_string split: if_splits)
qed

lemma py_set_strings:
  "\<exists>r. py_set (JArray (map JString ds)) = Inr r \<and> set r = JString ` set ds \<and> distinct r"
  using add_all_strings [of ds "[]"] by (simp add: py_set_def)

lemma strings_map: "set xs \<subseteq> range JString \<Longrightarrow> \<exists>ds. xs = map JString ds"
proof (induction xs)
  case Nil
  show ?case by simp
next
  case (Cons x xs)
  then obtain d ds where "x = JString d" "xs = map JString ds" by auto
  then show ?case by (intro exI [of _ "d # ds"]) simp
qed

lemma distinct_count_list_one: "distinct xs \<Longrightarrow> x \<in> set xs \<Longrightarrow> count_list xs x = 1"
  by (induction xs) auto

lemma write_domains_Inr:
  assumes "fst (write_domains e domains w) = Inr ()"
  shows "config (snd (write_domains e domains w)) =
           (config w)(''domains'' \<mapsto> JArray (set_order e domains)) \<and>
         new_events w (snd (write_domains e domains w)) = [SetConfig, SetupNginx, ReloadNginx]"
  using assms
  by (auto simp: write_domains_def and_then_def update_config_def setconfig_def setup_nginx_def
      reload_nginx_def call_def Let_def new_events_def split: option.splits)

lemma write_domains_reliable: "reliable e \<Longrightarrow> fst (write_domains e domains w) = Inr ()"
  by (simp add: write_domains_def and_then_def update_config_def setconfig_def setup_nginx_def
      reload_nginx_def call_def Let_def reliable_def)

lemma add_domain_string:
  assumes "stored_domains w = JArray (map JString ds)"
  shows "\<exists>r. add_domain e (JString d) w = write_domains e r w \<and>
             set r = JString ` insert d (set ds) \<and> distinct r"
proof -
  obtain r where r: "py_set (JArray (map JString ds)) = Inr r" "set r = JString ` set ds"
      "distinct r"
    using py_set_strings by blast
  show ?thesis
    by (intro exI [of _ "if JString d \<in> set r then r else r @ [JString d]"])
       (auto simp: add_domain_def assms r set_add_string)
qed

lemma remove_domain_string:
  assumes "stored_domains w = JArray (map JString ds)" and "d \<notin> set ds"
  shows "\<exists>r. remove_domain e (JString d) w = write_domains e r w \<and>
             set r = JString ` set ds \<and> distinct r"
proof -
  obtain r where r: "py_set (JArray (map JString ds)) = Inr r" "set r = JString ` set ds"
      "distinct r"
    using py_set_strings by blast
  have "filter (\<lambda>y. y \<noteq> JString d) r = r"
    using r(2) assms(2) by (auto simp: filter_id_conv)
  then show ?thesis
    by (intro exI [of _ r]) (simp add: remove_domain_def assms r set_discard_string)
qed

lemma set_order_perm:
  assumes "\<forall>xs. mset (set_order e xs) = mset xs"
  shows "set (set_order e xs) = set xs" "distinct (set_order e xs) = distinct xs"
  using assms mset_eq_setD mset_eq_imp_distinct_iff by blast+

lemma add_domain_once:
  assumes perm: "\<forall>xs. mset (set_order e xs) = mset xs"
    and stored: "stored_domains w = JArray (map JString ds)"
    and ok: "fst (add_domain e (JString d) w) = Inr ()"
  shows "\<exists>ys. config (snd (add_domain e (JString d) w)) ''domains'' = Some (JArray ys) \<and>
              set ys = JString ` insert d (set ds) \<and> distinct ys"
proof -
  obtain r where r: "add_domain e (JString d) w = write_domains e r w"
      "set r = JString ` insert d (set ds)" "distinct r"
    using add_domain_string [OF stored] by blast
  from ok write_domains_Inr [of e r w]
  have "config (snd (add_domain e (JString d) w)) ''domains'' = Some (JArray (set_order e r))"
    by (simp add: r(1))
  with r(2,3) set_order_perm [OF perm, of r] show ?thesis by simp
qed

lemma add_domain_twice:
  assumes perm: "\<forall>xs. mset (set_order e xs) = mset xs"
    and stored: "stored_domains w = JArray (map JString ds)"
    and ok1: "fst (add_domain e (JString d) w) = Inr ()"
    and ok2: "fst (add_domain e (JString d) (snd (add_domain e (JString d) w))) = Inr ()"
  shows "\<exists>ys. config (snd (add_domain e (JString d) (snd (add_domain e (JString d) w)))) ''domains'' =
                Some (JArray ys) \<and>
              count_list ys (JString d) = 1 \<and> set ys = JString ` insert d (set ds)"
proof -
  let ?w1 = "snd (add_domain e (JString d) w)"
  obtain ys1 where ys1: "config ?w1 ''domains'' = Some (JArray ys1)"
      "set ys1 = JString ` insert d (set ds)"
    using add_domain_once [OF perm stored ok1] by blast
  then obtain ds1 where ds1: "ys1 = map JString ds1"
    using strings_map [of ys1] by auto
  with ys1(2) have set1: "JString ` insert d (set ds1) = JString ` insert d (set ds)"
    by auto
  have stored1: "stored_domains ?w1 = JArray (map JString ds1)"
    by (simp add: stored_domains_def ys1(1) ds1)
  obtain ys where ys: "config (snd (add_domain e (JString d) ?w1)) ''domains'' = Some (JArray ys)"
      "set ys = JString ` insert d (set ds1)" "distinct ys"
    using add_domain_once [OF perm stored1 ok2] by blast
  then show ?thesis
    using set1 by (intro exI [of _ ys]) (simp add: distinct_count_list_one)
qed

lemma remove_absent_domain:
  assumes perm: "\<forall>xs. mset (set_order e xs) = mset xs"
    and stored: "stored_domains w = JArray (map JString ds)"
    and absent: "d \<notin> set ds"
    and ok: "fst (remove_domain e (JString d) w) = Inr ()"
  shows "(\<exists>ys. config (snd (remove_domain e (JString d) w)) ''domains'' = Some (JArray ys) \<and>
               set ys = JString ` set ds) \<and>
         new_events w (snd (remove_domain e (JString d) w)) = [SetConfig, SetupNginx, ReloadNginx]"
proof -
  obtain r where r: "remove_domain e (JString d) w = write_domains e r w"
      "set r = JString ` set ds"
    using remove_domain_string [OF stored absent] by blast
  from ok write_domains_Inr [of e r w]
  have "config (snd (remove_domain e (JString d) w)) ''domains'' = Some (JArray (set_order e r))"
    and "new_events w (snd (remove_domain e (JString d) w)) = [SetConfig, SetupNginx, ReloadNginx]"
    by (simp_all add: r(1))
  with r(2) set_order_perm(1) [OF perm, of r] show ?thesis by simp
qed

lemma domain_jobs_reliable:
  assumes "reliable e" and "stored_domains w = JArray (map JString ds)"
  shows "fst (add_domain e (JString d) w) = Inr ()"
    and "d \<notin> set ds \<Longrightarrow> fst (remove_domain e (JString d) w) = Inr ()"
  using add_domain_string [OF assms(2), of e d] remove_domain_string [OF assms(2), of d e]
    write_domains_reliable [OF assms(1)]
  by auto

text \<open>
  C8. Let the stored domains be a list of strings and let the iteration order of a set be a
  permutation of its elements. When \<open>add_domain\<close> has run twice with the same domain, the
  stored list holds that domain exactly once, next to the domains stored before. When
  \<open>remove_domain\<close> has run with a domain that was not stored, the stored list holds the same
  domains as before, and the configuration was written, the proxy configuration regenerated
  and the proxy reloaded. Both jobs run to their end whenever no collaborator fails.
\<close>

theorem domain_set_mutation:
  assumes "\<forall>xs. mset (set_order e xs) = mset xs"
    and "stored_domains w = JArray (map JString ds)"
  shows "(fst (add_domain e (JString d) w) = Inr () \<and>
          fst (add_domain e (JString d) (snd (add_domain e (JString d) w))) = Inr () \<longrightarrow>
            (\<exists>ys. config (snd (add_domain e (JString d) (snd (add_domain e (JString d) w)))) ''domains'' =
                    Some (JArray ys) \<and>
                  count_list ys (JString d) = 1 \<and> set ys = JString ` insert d (set ds))) \<and>
         (d \<notin> set ds \<and> fst (remove_domain e (JString d) w) = Inr () \<longrightarrow>
            (\<exists>ys. config (snd (remove_domain e (JString d) w)) ''domains'' = Some (JArray ys) \<and>
                  set ys = JString ` set ds) \<and>
            new_events w (snd (remove_domain e (JString d) w)) = [SetConfig, SetupNginx, ReloadNginx]) \<and>
         (reliable e \<longrightarrow>
            fst (add_domain e (JString d) w) = Inr () \<and>
            (d \<notin> set ds \<longrightarrow> fst (remove_domain e (JString d) w) = Inr ()))"
proof (intro conjI impI)
  assume "fst (add_domain e (JString d) w) = Inr () \<and>
          fst (add_domain e (JString d) (snd (add_domain e (JString d) w))) = Inr ()"
  then show "\<exists>ys. config (snd (add_domain e (JString d) (snd (add_domain e (JString d) w)))) ''domains'' =
                    Some (JArray ys) \<and>
                  count_list ys (JString d) = 1 \<and> set ys = JString ` insert d (set ds)"
    using add_domain_twice [OF assms] by simp
next
  assume a: "d \<notin> set ds \<and> fst (remove_domain e (JString d) w) = Inr ()"
  then show "\<exists>ys. config (snd (remove_domain e (JString d) w)) ''domains'' = Some (JArray ys) \<and>
                  set ys = JString ` set ds"
    using remove_absent_domain [OF assms] by simp
  from a show "new_events w (snd (remove_domain e (JString d) w)) =
      [SetConfig, SetupNginx, ReloadNginx]"
    using remove_absent_domain [OF assms] by simp
next
  assume "reliable e"
  then show "fst (add_domain e (JString d) w) = Inr ()"
    by (rule domain_jobs_reliable(1) [OF _ assms(2)])
next
  assume "reliable e" and "d \<notin> set ds"
  then show "fst (remove_domain e (JString d) w) = Inr ()"
    by (rule domain_jobs_reliable(2) [OF _ assms(2)])
qed

lemma write_domains_env_rev:
  "write_domains env_rev domains w =
     (Inr (), w\<lparr>trace := trace w @ [SetConfig, SetupNginx, ReloadNginx],
               config := (config w)(''domains'' \<mapsto> JArray (rev domains))\<rparr>)"
  by (simp add: write_domains_def and_then_def update_config_def setconfig_def setup_nginx_def
      reload_nginx_def call_def Let_def env_rev_def env0_def)

lemma add_domain_env_rev:
  "add_domain env_rev (JString ''x.com'') world_domains =
     (Inr (), world_domains\<lparr>trace := [SetConfig, SetupNginx, ReloadNginx],
       config := (config world_domains)(''domains'' \<mapsto> JArray [JString ''x.com'', JString ''a.com''])\<rparr>)"
  by (simp add: add_domain_def stored_domains_def py_set_def set_add_def write_domains_env_rev
      world_domains_def world0_def)

lemma add_domain_again_env_rev:
  "add_domain env_rev (JString ''x.com'')
     (world_domains\<lparr>trace := [SetConfig, SetupNginx, ReloadNginx],
       config := (config world_domains)(''domains'' \<mapsto> JArray [JString ''x.com'', JString ''a.com''])\<rparr>) =
     (Inr (), world_domains\<lparr>trace := [SetConfig, SetupNginx, ReloadNginx, SetConfig, SetupNginx, ReloadNginx],
       config := (config world_domains)(''domains'' \<mapsto> JArray [JString ''a.com'', JString ''x.com''])\<rparr>)"
  by (simp add: add_domain_def stored_domains_def py_set_def set_add_def write_domains_env_rev
        world_domains_def world0_def)

lemma remove_domain_env_rev:
  "remove_domain env_rev (JString ''y.com'') world_domains =
     (Inr (), world_domains\<lparr>trace := [SetConfig, SetupNginx, ReloadNginx],
       config := (config world_domains)(''domains'' \<mapsto> JArray [JString ''a.com''])\<rparr>)"
  by (simp add: remove_domain_def stored_domains_def py_set_def set_add_def set_discard_def
      write_domains_env_rev world_domains_def world0_def)

text \<open>
  Witness for C8: \<open>a.com\<close> is stored and sets are iterated in reverse; \<open>x.com\<close> is added
  twice, and \<open>y.com\<close>, which is not stored, is removed.
\<close>

theorem domain_set_mutation_witness:
  "(\<forall>xs. mset (set_order env_rev xs) = mset xs) \<and>
   stored_domains world_domains = JArray (map JString [''a.com'']) \<and>
   fst (add_domain env_rev (JString ''x.com'') world_domains) = Inr () \<and>
   fst (add_domain env_rev (JString ''x.com'')
          (snd (add_domain env_rev (JString ''x.com'') world_domains))) = Inr () \<and>
   config (snd (add_domain env_rev (JString ''x.com'')
                  (snd (add_domain env_rev (JString ''x.com'') world_domains)))) ''domains'' =
     Some (JArray [JString ''a.com'', JString ''x.com'']) \<and>
   count_list [JString ''a.com'', JString ''x.com''] (JString ''x.com'') = 1 \<and>
   ''y.com'' \<notin> set [''a.com''] \<and>
   fst (remove_domain env_rev (JString ''y.com'') world_domains) = Inr () \<and>
   config (snd (remove_domain env_rev (JString ''y.com'') world_domains)) ''domains'' =
     Some (JArray [JString ''a.com'']) \<and>
   new_events world_domains (snd (remove_domain env_rev (JString ''y.com'') world_domains)) =
     [SetConfig, SetupNginx, ReloadNginx]"
proof -
  have perm: "\<forall>xs. mset (set_order env_rev xs) = mset xs"
    by (simp add: env_rev_def)
  have stored: "stored_domains world_domains = JArray (map JString [''a.com''])"
    by (simp add: stored_domains_def world_domains_def)
  have absent: "''y.com'' \<notin> set [''a.com'']"
    by simp
  have ok: "fst (add_domain env_rev (JString ''x.com'') world_domains) = Inr ()"
    "fst (add_domain env_rev (JString ''x.com'')
          (snd (add_domain env_rev (JString ''x.com'') world_domains))) = Inr ()"
    "fst (remove_domain env_rev (JString ''y.com'') world_domains) = Inr ()"
    by (simp_all add: add_domain_env_rev add_domain_again_env_rev remove_domain_env_rev)
  have cfg: "config (snd (add_domain env_rev (JString ''x.com'')
                  (snd (add_domain env_rev (JString ''x.com'') world_domains)))) ''domains'' =
     Some (JArray [JString ''a.com'', JString ''x.com''])"
    "config (snd (remove_domain env_rev (JString ''y.com'') world_domains)) ''domains'' =
     Some (JArray [JString ''a.com''])"
    by (simp_all add: add_domain_env_rev add_domain_again_env_rev remove_domain_env_rev)
  have cnt: "count_list [JString ''a.com'', JString ''x.com''] (JString ''x.com'') = 1"
    by simp
  from domain_set_mutation [OF perm stored, of "''y.com''"] absent ok(3)
  have ev: "new_events world_domains (snd (remove_domain env_rev (JString ''y.com'') world_domains)) =
     [SetConfig, SetupNginx, ReloadNginx]"
    by simp
  show ?thesis
    by (intro conjI perm stored absent ok cfg cnt ev)
qed

end
